theory Spec2Isabelle
  imports Complex_Main
begin

section \<open>Data model\<close>

text \<open>
  The source holds four variants of the program: the unbatched run with a checkpoint
  (\<^verbatim>\<open>index.ts\<close> lines 1-125), the Effect run with a checkpoint and batches
  (\<^verbatim>\<open>index.ts\<close> lines 126-243 with \<^verbatim>\<open>pages.ts\<close>), the run with a checkpoint and a
  promise chain over the batches (\<^verbatim>\<open>part_000\<close> lines 1-151), and the oldest run, with
  neither checkpoint nor batches (\<^verbatim>\<open>part_000\<close> lines 152-244). The functions of the
  oldest run are word for word those of the first variant, and its \<^verbatim>\<open>main\<close> imports
  every filtered page; it is not modelled apart from them.

  The page and configuration types are those of \<^verbatim>\<open>index.ts\<close> lines 3-13. A JavaScript
  string is a \<^typ>\<open>string\<close>; the \<^verbatim>\<open>updated\<close> timestamp (seconds since the epoch) is
  an \<^typ>\<open>int\<close>. A line is modelled with its \<^verbatim>\<open>text\<close> field, the only one the
  pipeline inspects.
\<close>

record line =
  "text" :: string

record page =
  title :: string
  lines :: "line list"
  updated :: int

record config =
  sid :: string
  exportingProjectName :: string
  importingProjectName :: string

text \<open>
  A JavaScript number as the checkpoint code meets it: an integer, or the \<^verbatim>\<open>NaN\<close> that
  \<^verbatim>\<open>parseInt\<close> returns on text without a leading integer. Integers are unbounded
  here; the rounding of numbers beyond \<open>2\<^sup>5\<^sup>3\<close> is outside the model.
\<close>

datatype number = NaN | Num int

definition LAST_IMPORT_FILE :: string where
  "LAST_IMPORT_FILE = ''last_import.txt''"

definition INITIAL_IMPORT_TIME :: int where
  "INITIAL_IMPORT_TIME = 1745842021"

definition BATCH_SIZE :: nat where
  "BATCH_SIZE = 100"

section \<open>JavaScript primitives used by the pipeline\<close>

text \<open>\<^verbatim>\<open>s.includes(t)\<close>: \<^verbatim>\<open>t\<close> occurs in \<^verbatim>\<open>s\<close> at some position.\<close>

fun "includes" :: "string \<Rightarrow> string \<Rightarrow> bool" where
  "includes [] t = (t = [])"
| "includes (c # cs) t = (take (length t) (c # cs) = t \<or> includes cs t)"

text \<open>\<^verbatim>\<open>a > b\<close> on numbers: every comparison with \<^verbatim>\<open>NaN\<close> is false.\<close>

fun gt :: "int \<Rightarrow> number \<Rightarrow> bool" where
  "gt a NaN = False"
| "gt a (Num b) = (b < a)"

text \<open>
  \<^verbatim>\<open>n.toString()\<close> of an integer: its decimal digits, with a minus sign when negative
  (JavaScript switches to the exponent form from \<open>10\<^sup>2\<^sup>1\<close> on, far beyond a timestamp).
\<close>

definition digitChar :: "nat \<Rightarrow> char" where
  "digitChar d = ''0123456789'' ! d"

fun toString_nat :: "nat \<Rightarrow> string" where
  "toString_nat n =
     (if n < 10 then [digitChar n] else toString_nat (n div 10) @ [digitChar (n mod 10)])"

declare toString_nat.simps [simp del]

definition toString :: "int \<Rightarrow> string" where
  "toString n = (if n < 0 then CHR ''-'' # toString_nat (nat (- n)) else toString_nat (nat n))"

text \<open>
  \<^verbatim>\<open>parseInt(s, 10)\<close>: leading white space is skipped, an optional sign is read, then
  the longest run of decimal digits; what follows the digits is ignored, and a text
  with no digit at that place gives \<^verbatim>\<open>NaN\<close>. Nothing is thrown. The white space
  skipped here is the ASCII one (space, tab, line feed, vertical tab, form feed,
  carriage return).
\<close>

definition isWhiteSpace :: "char \<Rightarrow> bool" where
  "isWhiteSpace c = (c \<in> set [CHR '' '', CHR 0x09, CHR 0x0A, CHR 0x0B, CHR 0x0C, CHR 0x0D])"

definition isDigit :: "char \<Rightarrow> bool" where
  "isDigit c = (c \<in> set ''0123456789'')"

definition digitVal :: "char \<Rightarrow> nat" where
  "digitVal c = of_char c - 48"

definition digitsVal :: "string \<Rightarrow> nat" where
  "digitsVal ds = foldl (\<lambda>a c. 10 * a + digitVal c) 0 ds"

definition parseDigits :: "string \<Rightarrow> nat option" where
  "parseDigits s =
     (let ds = takeWhile isDigit s in if ds = [] then None else Some (digitsVal ds))"

definition parseInt :: "string \<Rightarrow> number" where
  "parseInt s =
     (case dropWhile isWhiteSpace s of
        [] \<Rightarrow> NaN
      | c # cs \<Rightarrow>
          if c = CHR ''-'' then (case parseDigits cs of None \<Rightarrow> NaN | Some v \<Rightarrow> Num (- int v))
          else if c = CHR ''+'' then (case parseDigits cs of None \<Rightarrow> NaN | Some v \<Rightarrow> Num (int v))
          else (case parseDigits (c # cs) of None \<Rightarrow> NaN | Some v \<Rightarrow> Num (int v)))"

text \<open>
  \<^verbatim>\<open>Math.ceil(n / b)\<close> for a length \<^verbatim>\<open>n\<close> and a positive \<^verbatim>\<open>b\<close>, and
  \<^verbatim>\<open>xs.slice(a, b)\<close> for indices that are not negative (both ends are clamped to the
  length, and an end before the start gives the empty array).
\<close>

definition ceilDiv :: "nat \<Rightarrow> nat \<Rightarrow> nat" where
  "ceilDiv n b = (n + b - 1) div b"

definition slice :: "'a list \<Rightarrow> nat \<Rightarrow> nat \<Rightarrow> 'a list" where
  "slice xs a b = take (b - a) (drop a xs)"

section \<open>Exclusion filter, change selection, batching\<close>

text \<open>
  \<^verbatim>\<open>isIncludedIcon\<close> and \<^verbatim>\<open>filterPrivateIconPages\<close>, the same in every variant
  (\<^verbatim>\<open>index.ts\<close> lines 81-87 and 204-211, \<^verbatim>\<open>part_000\<close> lines 82-88 and 215-221).
\<close>

definition isIncludedIcon :: "string \<Rightarrow> line list \<Rightarrow> bool" where
  "isIncludedIcon icon ls = list_ex (\<lambda>l. includes (text l) icon) ls"

definition filterPrivateIconPages :: "page list \<Rightarrow> page list" where
  "filterPrivateIconPages pages =
     filter (\<lambda>p. \<not> isIncludedIcon ''[private.icon]'' (lines p)) pages"

text \<open>
  The change selection of \<^verbatim>\<open>main\<close> (\<^verbatim>\<open>index.ts\<close> lines 28 and 169, \<^verbatim>\<open>part_000\<close>
  line 29): \<^verbatim>\<open>filteredPages.filter(p => p.updated > lastImportTime)\<close>.
\<close>

definition newPages :: "page list \<Rightarrow> number \<Rightarrow> page list" where
  "newPages filteredPages lastImportTime =
     filter (\<lambda>p. gt (updated p) lastImportTime) filteredPages"

text \<open>
  The partition of \<^verbatim>\<open>processBatchesEffect\<close> (\<^verbatim>\<open>pages.ts\<close> lines 137-140) and of the
  batched \<^verbatim>\<open>importPagesToProject\<close> (\<^verbatim>\<open>part_000\<close> lines 102-105):
  \<^verbatim>\<open>Array.from({ length: Math.ceil(items.length / batchSize) },
      (_, i) => items.slice(i * batchSize, (i + 1) * batchSize))\<close>.
\<close>

definition batches :: "'a list \<Rightarrow> nat \<Rightarrow> 'a list list" where
  "batches items batchSize =
     map (\<lambda>i. slice items (i * batchSize) ((i + 1) * batchSize))
       [0..<ceilDiv (length items) batchSize]"

section \<open>Effects: the remote service, the checkpoint file, errors\<close>

text \<open>
  Everything the run does to the outside is recorded in the \<open>world\<close>: the content of
  \<^verbatim>\<open>last_import.txt\<close> (\<open>None\<close> while the file does not exist), the calls made so far in
  order, and the number of import requests issued. What the outside answers is the
  \<open>remote\<close>: the environment variables, the result of the export call, the result of
  the n-th import request and whether writing the checkpoint file throws. Reading
  the checkpoint file throws exactly when the file does not exist. Console output is
  not part of the model, and a pause is the event \<open>Sleep\<close> with its length in
  milliseconds.
\<close>

datatype event =
    ExportPages string
  | ImportPages string "page list"
  | GetProfile
  | Fetch string "page list"
  | Sleep nat
  | WriteTextFile string string

record world =
  "file" :: "string option"
  events :: "event list"
  importCalls :: nat

datatype profile_result = ProfileOk | ProfileNotOk | ProfileThrows string

datatype fetch_result = FetchThrows string | Response nat string

record remote =
  env :: "string \<Rightarrow> string option"
  exportPages_result :: "(string \<times> string) + page list"
  importPages_result :: "nat \<Rightarrow> (string \<times> string) + string"
  getProfile_result :: "nat \<Rightarrow> profile_result"
  fetch_result :: "nat \<Rightarrow> fetch_result"
  write_error :: "(string \<times> string) option"

text \<open>
  The errors of the three variants: a thrown \<^verbatim>\<open>Error\<close> with its name and message, the
  tagged errors of the Effect variant, a missing configuration variable, and a defect
  (an exception outside the typed error channel).
\<close>

datatype error =
    JsError string string
  | ConfigError string
  | ExportError string string
  | ImportError string string
  | FileWriteError string string
  | Defect string

type_synonym 'a effect = "world \<Rightarrow> (error + 'a) \<times> world"

text \<open>\<^verbatim>\<open>await\<close> and \<^verbatim>\<open>yield*\<close>: run the first effect; a failure ends the sequence.\<close>

definition andThen :: "'a effect \<Rightarrow> ('a \<Rightarrow> 'b effect) \<Rightarrow> 'b effect" where
  "andThen m f w = (case m w of (Inl e, w') \<Rightarrow> (Inl e, w') | (Inr a, w') \<Rightarrow> f a w')"

definition emit :: "event \<Rightarrow> world \<Rightarrow> world" where
  "emit e w = w\<lparr>events := events w @ [e]\<rparr>"

subsection \<open>Configuration\<close>

text \<open>
  \<^verbatim>\<open>getConfig\<close> (\<^verbatim>\<open>index.ts\<close> lines 47-61) and \<^verbatim>\<open>getConfigEffect\<close> (lines 188-202)
  read three variables in the same order; the first missing one fails the run. (\<^verbatim>\<open>assertString\<close> comes from \<^verbatim>\<open>deps.ts\<close>; the error
  it throws is modelled as the configuration error naming the variable.)
\<close>

definition getConfig :: "remote \<Rightarrow> error + config" where
  "getConfig r =
     (case env r ''SID'' of
        None \<Rightarrow> Inl (ConfigError ''SID'')
      | Some s \<Rightarrow>
          (case env r ''SOURCE_PROJECT_NAME'' of
             None \<Rightarrow> Inl (ConfigError ''SOURCE_PROJECT_NAME'')
           | Some e \<Rightarrow>
               (case env r ''DESTINATION_PROJECT_NAME'' of
                  None \<Rightarrow> Inl (ConfigError ''DESTINATION_PROJECT_NAME'')
                | Some i \<Rightarrow>
                    Inr \<lparr>sid = s, exportingProjectName = e, importingProjectName = i\<rparr>)))"

definition getConfigEffect :: "remote \<Rightarrow> error + config" where
  "getConfigEffect r = getConfig r"

subsection \<open>Export\<close>

text \<open>
  \<^verbatim>\<open>exportPagesFromProject\<close> of \<^verbatim>\<open>index.ts\<close> lines 63-79 (the same in \<^verbatim>\<open>part_000\<close>),
  which throws an \<^verbatim>\<open>Error\<close>, and of \<^verbatim>\<open>pages.ts\<close> lines 102-126, which fails with the
  tagged \<^verbatim>\<open>ExportError\<close>.
\<close>

definition exportPagesFromProject_index :: "remote \<Rightarrow> config \<Rightarrow> (page list) effect" where
  "exportPagesFromProject_index r config w =
     (let w' = emit (ExportPages (exportingProjectName config)) w in
      case exportPages_result r of
        Inl (name, message) \<Rightarrow> (Inl (JsError (name @ '' when exporting a json file'') message), w')
      | Inr pages \<Rightarrow> (Inr pages, w'))"

definition exportPagesFromProject :: "remote \<Rightarrow> string \<Rightarrow> string \<Rightarrow> (page list) effect" where
  "exportPagesFromProject r project sid' w =
     (let w' = emit (ExportPages project) w in
      case exportPages_result r of
        Inl (name, message) \<Rightarrow> (Inl (ExportError message project), w')
      | Inr pages \<Rightarrow> (Inr pages, w'))"

subsection \<open>Checkpoint store\<close>

text \<open>
  \<^verbatim>\<open>getLastImportTime\<close> and \<^verbatim>\<open>saveLastImportTime\<close> (\<^verbatim>\<open>index.ts\<close> lines 112-125,
  \<^verbatim>\<open>part_000\<close> lines 138-151), and their Effect forms (\<^verbatim>\<open>index.ts\<close> lines 213-243).
  The \<^verbatim>\<open>catch\<close> is entered when the read throws; a write that throws inside it ends
  the run.
\<close>

definition saveLastImportTime :: "remote \<Rightarrow> int \<Rightarrow> unit effect" where
  "saveLastImportTime r time w =
     (case write_error r of
        Some (name, message) \<Rightarrow> (Inl (JsError name message), w)
      | None \<Rightarrow>
          (Inr (), emit (WriteTextFile LAST_IMPORT_FILE (toString time))
                     (w\<lparr>file := Some (toString time)\<rparr>)))"

definition getLastImportTime :: "remote \<Rightarrow> number effect" where
  "getLastImportTime r w =
     (case file w of
        Some content \<Rightarrow> (Inr (parseInt content), w)
      | None \<Rightarrow>
          andThen (saveLastImportTime r INITIAL_IMPORT_TIME)
            (\<lambda>_ w'. (Inr (Num INITIAL_IMPORT_TIME), w')) w)"

definition saveLastImportTimeEffect :: "remote \<Rightarrow> int \<Rightarrow> unit effect" where
  "saveLastImportTimeEffect r time w =
     (case write_error r of
        Some (name, message) \<Rightarrow> (Inl (FileWriteError message LAST_IMPORT_FILE), w)
      | None \<Rightarrow>
          (Inr (), emit (WriteTextFile LAST_IMPORT_FILE (toString time))
                     (w\<lparr>file := Some (toString time)\<rparr>)))"

definition getLastImportTimeEffect :: "remote \<Rightarrow> number effect" where
  "getLastImportTimeEffect r w =
     (case file w of
        Some content \<Rightarrow> (Inr (parseInt content), w)
      | None \<Rightarrow>
          andThen (saveLastImportTimeEffect r INITIAL_IMPORT_TIME)
            (\<lambda>_ w'. (Inr (Num INITIAL_IMPORT_TIME), w')) w)"

subsection \<open>Import, unbatched (\<^verbatim>\<open>index.ts\<close> lines 89-110)\<close>

text \<open>The \<^verbatim>\<open>importPages\<close> of \<^verbatim>\<open>deps.ts\<close>: one request, answered by the remote.\<close>

definition deps_importPages :: "remote \<Rightarrow> string \<Rightarrow> page list \<Rightarrow> world \<Rightarrow>
    ((string \<times> string) + string) \<times> world" where
  "deps_importPages r project pages w =
     (importPages_result r (importCalls w),
      emit (ImportPages project pages) (w\<lparr>importCalls := importCalls w + 1\<rparr>))"

definition importPagesToProject_index :: "remote \<Rightarrow> config \<Rightarrow> page list \<Rightarrow> unit effect" where
  "importPagesToProject_index r config pages w =
     (if pages = [] then (Inr (), w)
      else
        (case deps_importPages r (importingProjectName config) pages w of
           (Inl (name, message), w') \<Rightarrow>
             (Inl (JsError (name @ '' when importing pages'') message), w')
         | (Inr v, w') \<Rightarrow> (Inr (), w')))"

subsection \<open>Import in batches, promise chain (\<^verbatim>\<open>part_000\<close> lines 90-136)\<close>

text \<open>
  What a promise of the chain resolves to: \<^verbatim>\<open>undefined\<close>, or the object the callback
  returns when a batch fails.
\<close>

datatype resolved = Undefined | ErrorObject string string

text \<open>
  The body of the \<^verbatim>\<open>reduce\<close> callback after \<^verbatim>\<open>await previousPromise\<close>. On a failed
  result it returns an object; it does not throw.
\<close>

definition importBatch_part000 ::
    "remote \<Rightarrow> config \<Rightarrow> page list \<Rightarrow> nat \<Rightarrow> nat \<Rightarrow> world \<Rightarrow> resolved \<times> world" where
  "importBatch_part000 r config batch index len w =
     (let batchNumber = index + 1; totalBatches = len in
      case deps_importPages r (importingProjectName config) batch w of
        (Inl (name, message), w') \<Rightarrow>
          (ErrorObject
             (name @ '' when importing pages (batch '' @ toString (int batchNumber) @ ''/''
                @ toString (int totalBatches) @ '')'')
             message, w')
      | (Inr v, w') \<Rightarrow>
          if int index < int len - 1 then (Undefined, emit (Sleep 1000) w')
          else (Undefined, w'))"

text \<open>
  \<^verbatim>\<open>batches.reduce(async (previousPromise, batch, index) => ..., Promise.resolve())\<close>:
  each callback awaits the previous promise, drops what it resolved to, and runs its
  body.
\<close>

fun reduceBatches ::
    "remote \<Rightarrow> config \<Rightarrow> page list list \<Rightarrow> nat \<Rightarrow> nat \<Rightarrow> resolved \<times> world \<Rightarrow> resolved \<times> world" where
  "reduceBatches r config [] index len previous = previous"
| "reduceBatches r config (batch # rest) index len previous =
     reduceBatches r config rest (index + 1) len
       (importBatch_part000 r config batch index len (snd previous))"

definition importPagesToProject_part000 :: "remote \<Rightarrow> config \<Rightarrow> page list \<Rightarrow> unit effect" where
  "importPagesToProject_part000 r config pages w =
     (if pages = [] then (Inr (), w)
      else
        (let bs = batches pages BATCH_SIZE;
             final = reduceBatches r config bs 0 (length bs) (Undefined, w)
         in (Inr (), snd final)))"

subsection \<open>Import in batches, Effect variant (\<^verbatim>\<open>pages.ts\<close>)\<close>

text \<open>
  \<^verbatim>\<open>importPages\<close> (lines 55-100): the profile request for the CSRF token, then the
  upload; every failure becomes the tagged \<^verbatim>\<open>ImportError\<close> with a message and the
  project.
\<close>

definition importPages :: "remote \<Rightarrow> string \<Rightarrow> page list \<Rightarrow> string \<Rightarrow> unit effect" where
  "importPages r project pages sid' w =
     (let n = importCalls w;
          w1 = emit GetProfile (w\<lparr>importCalls := n + 1\<rparr>)
      in case getProfile_result r n of
           ProfileThrows m \<Rightarrow> (Inl (ImportError m project), w1)
         | ProfileNotOk \<Rightarrow> (Inl (ImportError ''Failed to get CSRF token'' project), w1)
         | ProfileOk \<Rightarrow>
             (let w2 = emit (Fetch project pages) w1
              in case fetch_result r n of
                   FetchThrows m \<Rightarrow> (Inl (ImportError m project), w2)
                 | Response status body \<Rightarrow>
                     if 200 \<le> status \<and> status \<le> 299 then (Inr (), w2)
                     else
                       (Inl (ImportError
                               (''Import failed: '' @ toString (int status) @ '' - '' @ body)
                               project), w2)))"

text \<open>
  The loop of \<^verbatim>\<open>processBatchesEffect\<close> (lines 142-149): \<^verbatim>\<open>i\<close> batches are done, the
  list holds the remaining ones; a failure of \<^verbatim>\<open>processFunc\<close> ends the loop.
\<close>

fun forBatches ::
    "('a list \<Rightarrow> nat \<Rightarrow> nat \<Rightarrow> unit effect) \<Rightarrow> 'a list list \<Rightarrow> nat \<Rightarrow> nat \<Rightarrow> unit effect" where
  "forBatches processFunc [] i len w = (Inr (), w)"
| "forBatches processFunc (batch # rest) i len w =
     andThen (processFunc batch (i + 1) len)
       (\<lambda>_. forBatches processFunc rest (i + 1) len) w"

text \<open>
  A batch size of zero with items to process makes \<^verbatim>\<open>Array.from\<close> throw a
  \<^verbatim>\<open>RangeError\<close> (the length is infinite).
\<close>

definition processBatchesEffect ::
    "'a list \<Rightarrow> nat \<Rightarrow> ('a list \<Rightarrow> nat \<Rightarrow> nat \<Rightarrow> unit effect) \<Rightarrow> unit effect" where
  "processBatchesEffect items batchSize processFunc w =
     (if batchSize = 0 \<and> items \<noteq> [] then (Inl (Defect ''RangeError: Invalid array length''), w)
      else
        (let bs = batches items batchSize
         in forBatches processFunc bs 0 (length bs) w))"

definition importBatch :: "remote \<Rightarrow> string \<Rightarrow> string \<Rightarrow> page list \<Rightarrow> nat \<Rightarrow> nat \<Rightarrow> unit effect" where
  "importBatch r importingProjectName' sid' batch batchNumber totalBatches =
     andThen (importPages r importingProjectName' batch sid')
       (\<lambda>_ w. if batchNumber < totalBatches then (Inr (), emit (Sleep 1000) w) else (Inr (), w))"

definition importPagesToProject :: "remote \<Rightarrow> string \<Rightarrow> page list \<Rightarrow> string \<Rightarrow> unit effect" where
  "importPagesToProject r importingProjectName' pages sid' w =
     (if pages = [] then (Inr (), w)
      else processBatchesEffect pages BATCH_SIZE (importBatch r importingProjectName' sid') w)"

subsection \<open>The run\<close>

text \<open>
  \<^verbatim>\<open>Math.max(...newPages.map(p => p.updated))\<close> is reached with a list that is not empty
  only; it is the fold of \<open>max\<close> from the first element.
\<close>

definition maxUpdated :: "page \<Rightarrow> page list \<Rightarrow> int" where
  "maxUpdated p ps = fold max (map updated ps) (updated p)"

text \<open>
  The three runs that keep a checkpoint: \<^verbatim>\<open>main\<close> of \<^verbatim>\<open>index.ts\<close> lines 22-45,
  \<^verbatim>\<open>main\<close> of \<^verbatim>\<open>part_000\<close> lines 23-46, and \<^verbatim>\<open>mainEffect\<close> of \<^verbatim>\<open>index.ts\<close> lines
  160-186. \<open>Inl e\<close> is the run that ends in the \<^verbatim>\<open>catch\<close> (the error is printed and
  the process exits with status 1).
\<close>

definition main_index :: "remote \<Rightarrow> unit effect" where
  "main_index r w =
     (case getConfig r of
        Inl e \<Rightarrow> (Inl e, w)
      | Inr config \<Rightarrow>
          andThen (exportPagesFromProject_index r config) (\<lambda>pages.
          andThen (getLastImportTime r) (\<lambda>lastImportTime w'.
            case newPages (filterPrivateIconPages pages) lastImportTime of
              [] \<Rightarrow> (Inr (), w')
            | p # ps \<Rightarrow>
                andThen (importPagesToProject_index r config (p # ps)) (\<lambda>_.
                  saveLastImportTime r (maxUpdated p ps)) w')) w)"

definition main_part000 :: "remote \<Rightarrow> unit effect" where
  "main_part000 r w =
     (case getConfig r of
        Inl e \<Rightarrow> (Inl e, w)
      | Inr config \<Rightarrow>
          andThen (exportPagesFromProject_index r config) (\<lambda>pages.
          andThen (getLastImportTime r) (\<lambda>lastImportTime w'.
            case newPages (filterPrivateIconPages pages) lastImportTime of
              [] \<Rightarrow> (Inr (), w')
            | p # ps \<Rightarrow>
                andThen (importPagesToProject_part000 r config (p # ps)) (\<lambda>_.
                  saveLastImportTime r (maxUpdated p ps)) w')) w)"

definition mainEffect :: "remote \<Rightarrow> unit effect" where
  "mainEffect r w =
     (case getConfigEffect r of
        Inl e \<Rightarrow> (Inl e, w)
      | Inr config \<Rightarrow>
          andThen (exportPagesFromProject r (exportingProjectName config) (sid config)) (\<lambda>pages.
          andThen (getLastImportTimeEffect r) (\<lambda>lastImportTime w'.
            case newPages (filterPrivateIconPages pages) lastImportTime of
              [] \<Rightarrow> (Inr (), w')
            | p # ps \<Rightarrow>
                andThen (importPagesToProject r (importingProjectName config) (p # ps) (sid config))
                  (\<lambda>_. saveLastImportTimeEffect r (maxUpdated p ps)) w')) w)"

section \<open>Notions used to state the properties\<close>

text \<open>
  What the code tests to take an import request as successful: the result of the
  \<^verbatim>\<open>deps.ts\<close> call is \<^verbatim>\<open>ok\<close>; in \<^verbatim>\<open>pages.ts\<close>, the profile was obtained and the response
  status is in the range that sets \<^verbatim>\<open>response.ok\<close>.
\<close>

definition depsOk :: "remote \<Rightarrow> nat \<Rightarrow> bool" where
  "depsOk r n = (case importPages_result r n of Inl _ \<Rightarrow> False | Inr _ \<Rightarrow> True)"

definition importOk :: "remote \<Rightarrow> nat \<Rightarrow> bool" where
  "importOk r n =
     (case getProfile_result r n of
        ProfileOk \<Rightarrow>
          (case fetch_result r n of
             Response status body \<Rightarrow> 200 \<le> status \<and> status \<le> 299
           | FetchThrows m \<Rightarrow> False)
      | _ \<Rightarrow> False)"

text \<open>The world after \<open>n\<close> more import requests and the events \<open>evs\<close>.\<close>

definition advance :: "nat \<Rightarrow> event list \<Rightarrow> world \<Rightarrow> world" where
  "advance n evs w = w\<lparr>events := events w @ evs, importCalls := importCalls w + n\<rparr>"

text \<open>The texts written to the checkpoint file by a sequence of events, in order.\<close>

fun writes :: "event list \<Rightarrow> string list" where
  "writes [] = []"
| "writes (WriteTextFile path content # evs) = content # writes evs"
| "writes (e # evs) = writes evs"

text \<open>
  The pause after batch \<open>i\<close> of \<open>k\<close> (none after the last one), and the events of the
  batches before batch \<open>j\<close>: in the Effect variant while every import succeeds, and in
  the promise chain, where a failed batch is followed by the next request without a
  pause. \<open>failedRequest\<close> is what a failing import of the Effect variant does before it
  fails.
\<close>

definition pause :: "nat \<Rightarrow> nat \<Rightarrow> event list" where
  "pause i k = (if i + 1 < k then [Sleep 1000] else [])"

definition batchEvents :: "string \<Rightarrow> page list list \<Rightarrow> nat \<Rightarrow> event list" where
  "batchEvents project bs i = GetProfile # Fetch project (bs ! i) # pause i (length bs)"

definition trace :: "string \<Rightarrow> page list list \<Rightarrow> nat \<Rightarrow> event list" where
  "trace project bs j = concat (map (batchEvents project bs) [0..<j])"

definition failedRequest :: "remote \<Rightarrow> string \<Rightarrow> page list \<Rightarrow> nat \<Rightarrow> event list" where
  "failedRequest r project b n =
     GetProfile # (if getProfile_result r n = ProfileOk then [Fetch project b] else [])"

definition trace_part000 :: "remote \<Rightarrow> string \<Rightarrow> page list list \<Rightarrow> nat \<Rightarrow> nat \<Rightarrow> event list" where
  "trace_part000 r project bs c j =
     concat (map (\<lambda>i. ImportPages project (bs ! i) #
                        (if depsOk r (c + i) then pause i (length bs) else [])) [0..<j])"

text \<open>
  \<open>quiet w w'\<close>: from \<open>w\<close> to \<open>w'\<close> only import requests and events that write nothing
  to the checkpoint file have happened.
\<close>

definition quiet :: "world \<Rightarrow> world \<Rightarrow> bool" where
  "quiet w w' = (\<exists>n evs. w' = advance n evs w \<and> writes evs = [])"

text \<open>The world after the checkpoint file has been written with \<open>time\<close>.\<close>

definition written :: "int \<Rightarrow> world \<Rightarrow> world" where
  "written time w =
     emit (WriteTextFile LAST_IMPORT_FILE (toString time)) (w\<lparr>file := Some (toString time)\<rparr>)"

text \<open>
  What a run can do to the checkpoint, from the world \<open>w\<close> it starts in to the world
  \<open>w'\<close> it ends in: nothing; seed an absent file with the default; advance a stored
  value \<open>t\<close> to a greater \<open>v\<close>; seed and then advance beyond the default.
\<close>

inductive checkpointStep :: "world \<Rightarrow> world \<Rightarrow> bool" where
  untouched:
    "file w' = file w \<Longrightarrow> writes (events w') = writes (events w) \<Longrightarrow> checkpointStep w w'"
| seeded:
    "file w = None \<Longrightarrow> file w' = Some (toString INITIAL_IMPORT_TIME) \<Longrightarrow>
     writes (events w') = writes (events w) @ [toString INITIAL_IMPORT_TIME] \<Longrightarrow>
     checkpointStep w w'"
| advanced:
    "file w = Some s \<Longrightarrow> parseInt s = Num t \<Longrightarrow> t < v \<Longrightarrow> file w' = Some (toString v) \<Longrightarrow>
     writes (events w') = writes (events w) @ [toString v] \<Longrightarrow>
     checkpointStep w w'"
| seeded_advanced:
    "file w = None \<Longrightarrow> INITIAL_IMPORT_TIME < v \<Longrightarrow> file w' = Some (toString v) \<Longrightarrow>
     writes (events w') = writes (events w) @ [toString INITIAL_IMPORT_TIME, toString v] \<Longrightarrow>
     checkpointStep w w'"

text \<open>One run after the other, each against its own remote.\<close>

fun runs :: "(remote \<Rightarrow> unit effect) \<Rightarrow> remote list \<Rightarrow> world \<Rightarrow> world" where
  "runs m [] w = w"
| "runs m (r # rs) w = runs m rs (snd (m r w))"

section \<open>Example inputs\<close>

text \<open>Three pages; the third carries the marker inside a line.\<close>

definition pageA :: page where
  "pageA = \<lparr>title = ''A'', lines = [\<lparr>text = ''A''\<rparr>, \<lparr>text = ''plain text''\<rparr>], updated = 5\<rparr>"

definition pageB :: page where
  "pageB = \<lparr>title = ''B'', lines = [\<lparr>text = ''B''\<rparr>], updated = 7\<rparr>"

definition pageC :: page where
  "pageC = \<lparr>title = ''C'', lines = [\<lparr>text = ''C''\<rparr>, \<lparr>text = ''see [private.icon] here''\<rparr>], updated = 9\<rparr>"

text \<open>A page modified after the default checkpoint.\<close>

definition pageD :: page where
  "pageD = \<lparr>title = ''D'', lines = [\<lparr>text = ''D''\<rparr>], updated = 1745900000\<rparr>"

text \<open>Pages with distinct titles, to fill more than one batch.\<close>

definition numberedPage :: "nat \<Rightarrow> page" where
  "numberedPage i = \<lparr>title = toString (int i), lines = [\<lparr>text = ''page''\<rparr>], updated = 7\<rparr>"

definition numberedPages :: "nat \<Rightarrow> page list" where
  "numberedPages n = map numberedPage [0..<n]"

text \<open>
  The scenario of the specification: the checkpoint is 1745842021, page A is older,
  page B newer, page C newer still but marked private.
\<close>

definition scenarioA :: page where
  "scenarioA = \<lparr>title = ''A'', lines = [\<lparr>text = ''A''\<rparr>], updated = 1745842020\<rparr>"

definition scenarioB :: page where
  "scenarioB = \<lparr>title = ''B'', lines = [\<lparr>text = ''B''\<rparr>], updated = 1745842022\<rparr>"

definition scenarioC :: page where
  "scenarioC =
     \<lparr>title = ''C'', lines = [\<lparr>text = ''C''\<rparr>, \<lparr>text = ''[private.icon]''\<rparr>], updated = 1745900000\<rparr>"

definition scenarioWorld :: world where
  "scenarioWorld = \<lparr>file = Some ''1745842021'', events = [], importCalls = 0\<rparr>"

text \<open>
  A configured environment, a world whose checkpoint file holds \<^verbatim>\<open>0\<close> and one without
  the file, a remote that accepts everything, one whose first import request fails
  while the later ones succeed, and one whose second import request fails.
\<close>

definition exampleEnv :: "string \<Rightarrow> string option" where
  "exampleEnv k =
     (if k = ''SID'' then Some ''secret''
      else if k = ''SOURCE_PROJECT_NAME'' then Some ''src''
      else if k = ''DESTINATION_PROJECT_NAME'' then Some ''dst''
      else None)"

definition exampleConfig :: config where
  "exampleConfig = \<lparr>sid = ''secret'', exportingProjectName = ''src'', importingProjectName = ''dst''\<rparr>"

definition startWorld :: world where
  "startWorld = \<lparr>file = Some ''0'', events = [], importCalls = 0\<rparr>"

definition freshWorld :: world where
  "freshWorld = \<lparr>file = None, events = [], importCalls = 0\<rparr>"

definition laterWorld :: world where
  "laterWorld = \<lparr>file = Some ''7'', events = [], importCalls = 0\<rparr>"

definition garbledWorld :: world where
  "garbledWorld = \<lparr>file = Some ''abc'', events = [], importCalls = 0\<rparr>"

definition okRemote :: "page list \<Rightarrow> remote" where
  "okRemote pages =
     \<lparr>env = exampleEnv,
      exportPages_result = Inr pages,
      importPages_result = (\<lambda>n. Inr ''ok''),
      getProfile_result = (\<lambda>n. ProfileOk),
      fetch_result = (\<lambda>n. Response 200 ''ok''),
      write_error = None\<rparr>"

definition firstFailsRemote :: "page list \<Rightarrow> remote" where
  "firstFailsRemote pages =
     \<lparr>env = exampleEnv,
      exportPages_result = Inr pages,
      importPages_result = (\<lambda>n. if n = 0 then Inl (''ImportError'', ''rejected'') else Inr ''ok''),
      getProfile_result = (\<lambda>n. ProfileOk),
      fetch_result = (\<lambda>n. if n = 0 then Response 500 ''rejected'' else Response 200 ''ok''),
      write_error = None\<rparr>"

definition secondFailsRemote :: "page list \<Rightarrow> remote" where
  "secondFailsRemote pages =
     \<lparr>env = exampleEnv,
      exportPages_result = Inr pages,
      importPages_result = (\<lambda>n. if n = 1 then Inl (''ImportError'', ''rejected'') else Inr ''ok''),
      getProfile_result = (\<lambda>n. ProfileOk),
      fetch_result = (\<lambda>n. if n = 1 then Response 500 ''rejected'' else Response 200 ''ok''),
      write_error = None\<rparr>"

section \<open>Properties of the pure components\<close>

lemma includes_iff: "includes s t \<longleftrightarrow> (\<exists>a b. s = a @ t @ b)"
proof (induction s)
  case Nil
  then show ?case by simp
next
  case (Cons c cs)
  have pre: "take (length t) (c # cs) = t \<longleftrightarrow> (\<exists>b. c # cs = t @ b)"
  proof
    assume "take (length t) (c # cs) = t"
    then have "c # cs = t @ drop (length t) (c # cs)"
      by (metis append_take_drop_id)
    then show "\<exists>b. c # cs = t @ b" ..
  next
    assume "\<exists>b. c # cs = t @ b"
    then obtain b where "c # cs = t @ b" ..
    then show "take (length t) (c # cs) = t" by simp
  qed
  show ?case
  proof
    assume "includes (c # cs) t"
    then consider "\<exists>b. c # cs = t @ b" | "includes cs t"
      using pre by auto
    then show "\<exists>a b. c # cs = a @ t @ b"
    proof cases
      case 1
      then obtain b where "c # cs = [] @ t @ b" by auto
      then show ?thesis by blast
    next
      case 2
      then obtain a b where "cs = a @ t @ b" using Cons.IH by auto
      then have "c # cs = (c # a) @ t @ b" by simp
      then show ?thesis by blast
    qed
  next
    assume "\<exists>a b. c # cs = a @ t @ b"
    then obtain a b where ab: "c # cs = a @ t @ b" by auto
    show "includes (c # cs) t"
    proof (cases a)
      case Nil
      with ab have "\<exists>b. c # cs = t @ b" by auto
      with pre show ?thesis by simp
    next
      case (Cons x a')
      with ab have "cs = a' @ t @ b" by simp
      then have "includes cs t" using Cons.IH by auto
      then show ?thesis by simp
    qed
  qed
qed

lemma isIncludedIcon_iff:
  "isIncludedIcon icon ls \<longleftrightarrow> (\<exists>l \<in> set ls. \<exists>a b. text l = a @ icon @ b)"
  by (simp add: isIncludedIcon_def list_ex_iff includes_iff)

subsection \<open>Exclusion filter\<close>

text \<open>
  Claim C5. The exclusion filter keeps, in their order, exactly the pages none of whose
  lines has a text that contains \<^verbatim>\<open>[private.icon]\<close> at some position (the text is
  \<open>a @ ''[private.icon]'' @ b\<close> for some \<open>a\<close> and \<open>b\<close>); a page is in the result if and only
  if it is in the input and has no such line, and a list without any marked page is
  returned as it is.
\<close>

theorem filterPrivateIconPages_exact:
  "filterPrivateIconPages P =
     filter (\<lambda>p. \<not> (\<exists>l \<in> set (lines p). \<exists>a b. text l = a @ ''[private.icon]'' @ b)) P
   \<and> (\<forall>p. p \<in> set (filterPrivateIconPages P) \<longleftrightarrow>
          p \<in> set P \<and> \<not> (\<exists>l \<in> set (lines p). \<exists>a b. text l = a @ ''[private.icon]'' @ b))
   \<and> ((\<forall>p \<in> set P. \<not> (\<exists>l \<in> set (lines p). \<exists>a b. text l = a @ ''[private.icon]'' @ b))
          \<longrightarrow> filterPrivateIconPages P = P)"
proof -
  have eq: "filterPrivateIconPages P =
     filter (\<lambda>p. \<not> (\<exists>l \<in> set (lines p). \<exists>a b. text l = a @ ''[private.icon]'' @ b)) P"
    by (simp add: filterPrivateIconPages_def isIncludedIcon_iff)
  show ?thesis
    unfolding eq by (auto simp: filter_id_conv)
qed

theorem filterPrivateIconPages_exact_witness:
  "filterPrivateIconPages [pageA, pageC, pageB] = [pageA, pageB]
   \<and> (\<exists>l \<in> set (lines pageC). \<exists>a b. text l = a @ ''[private.icon]'' @ b)
   \<and> \<not> (\<exists>l \<in> set (lines pageA). \<exists>a b. text l = a @ ''[private.icon]'' @ b)
   \<and> \<not> (\<exists>l \<in> set (lines pageB). \<exists>a b. text l = a @ ''[private.icon]'' @ b)
   \<and> filterPrivateIconPages [pageA, pageB] = [pageA, pageB]"
proof -
  have C: "\<exists>l \<in> set (lines pageC). \<exists>a b. text l = a @ ''[private.icon]'' @ b"
    unfolding isIncludedIcon_iff [symmetric] by (simp add: isIncludedIcon_def pageC_def)
  have A: "\<not> (\<exists>l \<in> set (lines pageA). \<exists>a b. text l = a @ ''[private.icon]'' @ b)"
    unfolding isIncludedIcon_iff [symmetric] by (simp add: isIncludedIcon_def pageA_def)
  have B: "\<not> (\<exists>l \<in> set (lines pageB). \<exists>a b. text l = a @ ''[private.icon]'' @ b)"
    unfolding isIncludedIcon_iff [symmetric] by (simp add: isIncludedIcon_def pageB_def)
  have "filterPrivateIconPages [pageA, pageC, pageB] =
     filter (\<lambda>p. \<not> (\<exists>l \<in> set (lines p). \<exists>a b. text l = a @ ''[private.icon]'' @ b)) [pageA, pageC, pageB]"
    using filterPrivateIconPages_exact [of "[pageA, pageC, pageB]"] by (rule conjunct1)
  then have 1: "filterPrivateIconPages [pageA, pageC, pageB] = [pageA, pageB]"
    using A B C by simp
  have 2: "\<forall>p \<in> set [pageA, pageB]. \<not> (\<exists>l \<in> set (lines p). \<exists>a b. text l = a @ ''[private.icon]'' @ b)"
    using A B by simp
  have 3: "filterPrivateIconPages [pageA, pageB] = [pageA, pageB]"
    using filterPrivateIconPages_exact [of "[pageA, pageB]"] 2 by blast
  show ?thesis using 1 3 A B C by blast
qed

subsection \<open>Change selection\<close>

lemma newPages_NaN: "newPages P NaN = []"
  by (simp add: newPages_def)

text \<open>
  Claim C3. For a timestamp \<open>C\<close>, the selection is the input filtered by
  \<open>C < updated p\<close>, in the input's order: a page of the input is selected if and only if
  its \<open>updated\<close> is strictly greater than \<open>C\<close>, a page with \<open>updated\<close> equal to \<open>C\<close> is
  left out, and selecting again from the result with the same \<open>C\<close> changes nothing.
\<close>

theorem newPages_selects:
  "newPages P (Num C) = filter (\<lambda>p. C < updated p) P
   \<and> (\<forall>p \<in> set P. p \<in> set (newPages P (Num C)) \<longleftrightarrow> C < updated p)
   \<and> (\<forall>p \<in> set P. updated p = C \<longrightarrow> p \<notin> set (newPages P (Num C)))
   \<and> newPages (newPages P (Num C)) (Num C) = newPages P (Num C)"
  by (auto simp: newPages_def)

theorem newPages_selects_witness:
  "newPages [pageA, pageB, pageC] (Num 7) = [pageC]
   \<and> pageB \<in> set [pageA, pageB, pageC] \<and> updated pageB = 7
   \<and> pageB \<notin> set (newPages [pageA, pageB, pageC] (Num 7))
   \<and> newPages (newPages [pageA, pageB, pageC] (Num 7)) (Num 7) = [pageC]"
proof -
  have "newPages [pageA, pageB, pageC] (Num 7) = filter (\<lambda>p. 7 < updated p) [pageA, pageB, pageC]"
    using newPages_selects [of "[pageA, pageB, pageC]" 7] by (rule conjunct1)
  then have sel: "newPages [pageA, pageB, pageC] (Num 7) = [pageC]"
    by (simp add: pageA_def pageB_def pageC_def)
  have "newPages (newPages [pageA, pageB, pageC] (Num 7)) (Num 7) = newPages [pageA, pageB, pageC] (Num 7)"
    using newPages_selects [of "[pageA, pageB, pageC]" 7] by blast
  then show ?thesis
    by (simp add: sel) (simp add: pageB_def pageC_def)
qed

subsection \<open>Batching\<close>

lemma ceilDiv_upper: "0 < b \<Longrightarrow> n \<le> ceilDiv n b * b"
proof -
  assume b: "0 < b"
  define m where "m = ceilDiv n b * b"
  have "n + b - 1 = m + (n + b - 1) mod b"
    by (simp add: m_def ceilDiv_def)
  moreover have "(n + b - 1) mod b < b" using b by simp
  ultimately show "n \<le> m" by arith
qed

lemma ceilDiv_lower: "0 < b \<Longrightarrow> 0 < n \<Longrightarrow> (ceilDiv n b - 1) * b < n"
proof -
  assume b: "0 < b" and n: "0 < n"
  define m where "m = ceilDiv n b * b"
  have "n + b - 1 = m + (n + b - 1) mod b"
    by (simp add: m_def ceilDiv_def)
  then have "m - b < n" using b n by arith
  then show ?thesis by (simp add: m_def diff_mult_distrib)
qed

lemma ceilDiv_0: "0 < b \<Longrightarrow> ceilDiv 0 b = 0"
  by (simp add: ceilDiv_def)

lemma ceilDiv_pos: "0 < b \<Longrightarrow> 0 < n \<Longrightarrow> 0 < ceilDiv n b"
  using ceilDiv_upper [of b n] by (cases "ceilDiv n b") auto

lemma ceilDiv_ceiling: "0 < b \<Longrightarrow> int (ceilDiv n b) = \<lceil>real n / real b\<rceil>"
proof (cases "n = 0")
  case True
  assume "0 < b"
  then show ?thesis using True by (simp add: ceilDiv_def)
next
  case False
  assume b: "0 < b"
  let ?q = "ceilDiv n b"
  have q: "0 < ?q" using b False by (simp add: ceilDiv_pos)
  have up: "real n \<le> real ?q * real b"
    using ceilDiv_upper [OF b, of n] by (metis of_nat_le_iff of_nat_mult)
  have "real ((?q - 1) * b) < real n"
    using ceilDiv_lower [OF b, of n] False by (simp only: of_nat_less_iff)
  then have lo: "(real ?q - 1) * real b < real n"
    using q by (simp add: of_nat_diff)
  have "\<lceil>real n / real b\<rceil> = int ?q"
  proof (rule ceiling_unique)
    show "of_int (int ?q) - 1 < real n / real b"
      using lo b by (simp add: pos_less_divide_eq)
    show "real n / real b \<le> of_int (int ?q)"
      using up b by (simp add: pos_divide_le_eq)
  qed
  then show ?thesis by simp
qed

lemma concat_slices:
  "concat (map (\<lambda>i. slice xs (i * b) ((i + 1) * b)) [0..<k]) = take (k * b) xs"
proof (induction k)
  case 0
  then show ?case by simp
next
  case (Suc k)
  have "take (k * b) xs @ slice xs (k * b) ((k + 1) * b) = take (k * b + b) xs"
    by (simp add: slice_def take_add)
  with Suc show ?case by (simp add: add.commute)
qed

lemma length_batches: "length (batches xs b) = ceilDiv (length xs) b"
  by (simp add: batches_def)

lemma nth_batches:
  "i < ceilDiv (length xs) b \<Longrightarrow> batches xs b ! i = take b (drop (i * b) xs)"
  by (simp add: batches_def slice_def)

lemma concat_batches: "0 < b \<Longrightarrow> concat (batches xs b) = xs"
  using ceilDiv_upper [of b "length xs"] by (simp only: batches_def concat_slices) simp

lemma length_batch_le: "bs \<in> set (batches xs b) \<Longrightarrow> length bs \<le> b"
  by (auto simp: batches_def slice_def)

lemma batch_start_in_range:
  assumes "0 < b" and "i < ceilDiv (length xs) b"
  shows "i * b < length xs"
proof -
  have "0 < length xs"
    using assms ceilDiv_0 [of b] by (cases "length xs") auto
  then have "(ceilDiv (length xs) b - 1) * b < length xs"
    using assms(1) by (rule ceilDiv_lower [rotated])
  moreover have "i \<le> ceilDiv (length xs) b - 1"
    using assms(2) by simp
  then have "i * b \<le> (ceilDiv (length xs) b - 1) * b"
    by (rule mult_le_mono1)
  ultimately show ?thesis by (rule le_less_trans [rotated])
qed

lemma length_batch_full:
  assumes "0 < b" and "Suc i < ceilDiv (length xs) b"
  shows "length (batches xs b ! i) = b"
proof -
  have "Suc i * b < length xs"
    using assms by (rule batch_start_in_range)
  then have "i * b + b \<le> length xs" by simp
  then show ?thesis using assms by (simp add: nth_batches)
qed

lemma length_batch_pos:
  assumes "0 < b" and "i < ceilDiv (length xs) b"
  shows "batches xs b ! i \<noteq> []"
  using assms batch_start_in_range [OF assms] by (simp add: nth_batches)

text \<open>
  Claim C2. A list of pages \<open>P\<close> that is not empty, cut with a batch size \<open>B > 0\<close>,
  gives exactly \<open>\<lceil>|P| / B\<rceil>\<close> batches; each holds at most \<open>B\<close> pages, every batch before
  the last holds exactly \<open>B\<close>, batch \<open>i\<close> is the contiguous run of \<open>P\<close> that starts at
  \<open>i * B\<close> and is not empty, and the batches concatenated in order are \<open>P\<close> again.
\<close>

theorem batches_partition:
  assumes "P \<noteq> []" and "0 < B"
  shows "int (length (batches P B)) = \<lceil>real (length P) / real B\<rceil>
       \<and> (\<forall>b \<in> set (batches P B). length b \<le> B)
       \<and> (\<forall>i. Suc i < length (batches P B) \<longrightarrow> length (batches P B ! i) = B)
       \<and> (\<forall>i < length (batches P B). batches P B ! i = take B (drop (i * B) P) \<and> batches P B ! i \<noteq> [])
       \<and> concat (batches P B) = P"
proof -
  have "int (length (batches P B)) = \<lceil>real (length P) / real B\<rceil>"
    using assms by (simp add: length_batches ceilDiv_ceiling)
  moreover have "\<forall>b \<in> set (batches P B). length b \<le> B"
    by (simp add: length_batch_le)
  moreover have "\<forall>i. Suc i < length (batches P B) \<longrightarrow> length (batches P B ! i) = B"
    using assms by (simp add: length_batches length_batch_full)
  moreover have "\<forall>i < length (batches P B). batches P B ! i = take B (drop (i * B) P) \<and> batches P B ! i \<noteq> []"
    using assms by (auto simp: length_batches nth_batches dest!: batch_start_in_range [rotated])
  moreover have "concat (batches P B) = P"
    using assms by (simp add: concat_batches)
  ultimately show ?thesis by blast
qed

theorem batches_partition_witness:
  "[pageA, pageB, pageC] \<noteq> [] \<and> (0::nat) < 2
   \<and> batches [pageA, pageB, pageC] 2 = [[pageA, pageB], [pageC]]
   \<and> concat (batches [pageA, pageB, pageC] 2) = [pageA, pageB, pageC]"
  using batches_partition [of "[pageA, pageB, pageC]" 2]
  by (simp add: batches_def slice_def ceilDiv_def upt_rec)

section \<open>The batch loops\<close>

lemma andThen_Inl: "m w = (Inl e, w') \<Longrightarrow> andThen m f w = (Inl e, w')"
  by (simp add: andThen_def)

lemma andThen_Inr: "m w = (Inr a, w') \<Longrightarrow> andThen m f w = f a w'"
  by (simp add: andThen_def)

lemma advance_0: "advance 0 [] w = w"
  by (simp add: advance_def)

lemma advance_advance: "advance m es (advance n ds w) = advance (n + m) (ds @ es) w"
  by (simp add: advance_def)

lemma advance_sel:
  "file (advance n evs w) = file w"
  "events (advance n evs w) = events w @ evs"
  "importCalls (advance n evs w) = importCalls w + n"
  by (simp_all add: advance_def)

lemma emit_advance: "emit e (advance n evs w) = advance n (evs @ [e]) w"
  by (simp add: emit_def advance_def)

lemma forBatches_run:
  assumes "\<forall>j < length rest. f (rest ! j) (i + j + 1) len (W j) = (Inr (), W (Suc j))"
  shows "forBatches f rest i len (W 0) = (Inr (), W (length rest))"
  using assms
proof (induction rest arbitrary: i W)
  case Nil
  then show ?case by simp
next
  case (Cons b rest)
  have first: "f b (i + 1) len (W 0) = (Inr (), W (Suc 0))"
    using Cons.prems by auto
  have later: "\<forall>j < length rest. f (rest ! j) (i + 1 + j + 1) len (W (Suc j)) = (Inr (), W (Suc (Suc j)))"
    using Cons.prems by auto
  have "forBatches f rest (i + 1) len ((\<lambda>j. W (Suc j)) 0) = (Inr (), (\<lambda>j. W (Suc j)) (length rest))"
    by (rule Cons.IH) (use later in simp)
  then show ?case using first by (simp add: andThen_def)
qed

lemma forBatches_stop:
  assumes "m < length rest"
    and "\<forall>j < m. f (rest ! j) (i + j + 1) len (W j) = (Inr (), W (Suc j))"
    and "f (rest ! m) (i + m + 1) len (W m) = (Inl e, w')"
  shows "forBatches f rest i len (W 0) = (Inl e, w')"
  using assms
proof (induction rest arbitrary: i W m)
  case Nil
  then show ?case by simp
next
  case (Cons b rest)
  show ?case
  proof (cases m)
    case 0
    then show ?thesis using Cons.prems by (simp add: andThen_def)
  next
    case (Suc m')
    have first: "f b (i + 1) len (W 0) = (Inr (), W (Suc 0))"
      using Cons.prems Suc by auto
    have later: "\<forall>j < m'. f (rest ! j) (i + 1 + j + 1) len (W (Suc j)) = (Inr (), W (Suc (Suc j)))"
      using Cons.prems Suc by auto
    have last: "f (rest ! m') (i + 1 + m' + 1) len (W (Suc m')) = (Inl e, w')"
      using Cons.prems Suc by auto
    have "forBatches f rest (i + 1) len ((\<lambda>j. W (Suc j)) 0) = (Inl e, w')"
      by (rule Cons.IH [of m']) (use Cons.prems Suc later last in simp_all)
    then show ?thesis using first by (simp add: andThen_def)
  qed
qed

lemma reduceBatches_run:
  assumes "\<forall>j < length rest. snd (importBatch_part000 r c (rest ! j) (i + j) len (W j)) = W (Suc j)"
  shows "snd (reduceBatches r c rest i len (v, W 0)) = W (length rest)"
  using assms
proof (induction rest arbitrary: i W v)
  case Nil
  then show ?case by simp
next
  case (Cons b rest)
  have first: "snd (importBatch_part000 r c b i len (W 0)) = W (Suc 0)"
    using Cons.prems by auto
  have later: "\<forall>j < length rest. snd (importBatch_part000 r c (rest ! j) (i + 1 + j) len (W (Suc j))) = W (Suc (Suc j))"
    using Cons.prems by auto
  obtain v' where step: "importBatch_part000 r c b i len (W 0) = (v', W (Suc 0))"
    using first by (metis prod.collapse)
  have "snd (reduceBatches r c rest (i + 1) len (v', (\<lambda>j. W (Suc j)) 0)) = (\<lambda>j. W (Suc j)) (length rest)"
    by (rule Cons.IH) (use later in simp)
  then show ?case using step by simp
qed

lemma pause_int: "(int i < int k - 1) = (i + 1 < k)"
  by auto

lemma importBatch_part000_world:
  "snd (importBatch_part000 r c b i k w) =
     advance 1 (ImportPages (importingProjectName c) b #
                (if depsOk r (importCalls w) then pause i k else [])) w"
  by (cases "importPages_result r (importCalls w)")
     (auto simp: importBatch_part000_def deps_importPages_def depsOk_def pause_def emit_def
        advance_def Let_def split: prod.splits)

lemma importPagesToProject_part000_trace:
  "importPagesToProject_part000 r c pages w =
     (Inr (), advance (length (batches pages BATCH_SIZE))
                (trace_part000 r (importingProjectName c) (batches pages BATCH_SIZE)
                   (importCalls w) (length (batches pages BATCH_SIZE))) w)"
proof (cases "pages = []")
  case True
  then show ?thesis
    by (simp add: importPagesToProject_part000_def batches_def ceilDiv_def BATCH_SIZE_def
        trace_part000_def advance_0)
next
  case False
  let ?bs = "batches pages BATCH_SIZE"
  let ?W = "\<lambda>j. advance j (trace_part000 r (importingProjectName c) ?bs (importCalls w) j) w"
  have step: "\<forall>j < length ?bs.
      snd (importBatch_part000 r c (?bs ! j) (0 + j) (length ?bs) (?W j)) = ?W (Suc j)"
    by (simp add: importBatch_part000_world advance_advance advance_sel trace_part000_def)
  have "snd (reduceBatches r c ?bs 0 (length ?bs) (Undefined, ?W 0)) = ?W (length ?bs)"
    using step by (rule reduceBatches_run)
  moreover have "?W 0 = w" by (simp add: trace_part000_def advance_0)
  ultimately show ?thesis using False
    by (simp add: importPagesToProject_part000_def Let_def)
qed

lemma emit_count: "emit e (w\<lparr>importCalls := Suc (importCalls w)\<rparr>) = advance (Suc 0) [e] w"
  by (simp add: emit_def advance_def)

lemma importPages_ok:
  "importOk r (importCalls w) \<Longrightarrow>
   importPages r project b s w = (Inr (), advance 1 [GetProfile, Fetch project b] w)"
  by (auto simp: importPages_def importOk_def Let_def emit_count emit_advance
      split: profile_result.splits fetch_result.splits)

lemma importPages_fail:
  "\<not> importOk r (importCalls w) \<Longrightarrow>
   \<exists>msg. importPages r project b s w =
     (Inl (ImportError msg project), advance 1 (failedRequest r project b (importCalls w)) w)"
  by (auto simp: importPages_def importOk_def Let_def emit_count emit_advance failedRequest_def
      split: profile_result.splits fetch_result.splits)

lemma importBatch_ok:
  "importOk r (importCalls w) \<Longrightarrow>
   importBatch r project s b (Suc i) k w =
     (Inr (), advance 1 (GetProfile # Fetch project b # pause i k) w)"
  by (simp add: importBatch_def andThen_def importPages_ok pause_def emit_advance)

lemma importBatch_fail:
  "\<not> importOk r (importCalls w) \<Longrightarrow>
   \<exists>msg. importBatch r project s b n k w =
     (Inl (ImportError msg project), advance 1 (failedRequest r project b (importCalls w)) w)"
  using importPages_fail [of r w project b s]
  by (auto simp: importBatch_def andThen_def)

lemma BATCH_SIZE_pos: "0 < BATCH_SIZE"
  by (simp add: BATCH_SIZE_def)

lemma importPagesToProject_ok:
  assumes "\<forall>i < length (batches pages BATCH_SIZE). importOk r (importCalls w + i)"
  shows "importPagesToProject r project pages s w =
     (Inr (), advance (length (batches pages BATCH_SIZE))
                (trace project (batches pages BATCH_SIZE) (length (batches pages BATCH_SIZE))) w)"
proof (cases "pages = []")
  case True
  then show ?thesis
    by (simp add: importPagesToProject_def batches_def ceilDiv_def BATCH_SIZE_def trace_def advance_0)
next
  case False
  let ?bs = "batches pages BATCH_SIZE"
  let ?W = "\<lambda>j. advance j (trace project ?bs j) w"
  have step: "\<forall>j < length ?bs.
      importBatch r project s (?bs ! j) (0 + j + 1) (length ?bs) (?W j) = (Inr (), ?W (Suc j))"
    using assms
    by (simp add: importBatch_ok advance_sel advance_advance trace_def batchEvents_def)
  have "forBatches (importBatch r project s) ?bs 0 (length ?bs) (?W 0) = (Inr (), ?W (length ?bs))"
    using step by (rule forBatches_run)
  moreover have "?W 0 = w" by (simp add: trace_def advance_0)
  ultimately show ?thesis using False BATCH_SIZE_pos
    by (simp add: importPagesToProject_def processBatchesEffect_def Let_def)
qed

lemma importPagesToProject_fail:
  assumes "m < length (batches pages BATCH_SIZE)"
    and "\<forall>i < m. importOk r (importCalls w + i)"
    and "\<not> importOk r (importCalls w + m)"
  shows "\<exists>msg. importPagesToProject r project pages s w =
     (Inl (ImportError msg project),
      advance (m + 1)
        (trace project (batches pages BATCH_SIZE) m @
         failedRequest r project (batches pages BATCH_SIZE ! m) (importCalls w + m)) w)"
proof -
  let ?bs = "batches pages BATCH_SIZE"
  let ?W = "\<lambda>j. advance j (trace project ?bs j) w"
  have ne: "pages \<noteq> []"
    using assms(1) by (auto simp: batches_def ceilDiv_def BATCH_SIZE_def)
  have step: "\<forall>j < m.
      importBatch r project s (?bs ! j) (0 + j + 1) (length ?bs) (?W j) = (Inr (), ?W (Suc j))"
    using assms(2)
    by (simp add: importBatch_ok advance_sel advance_advance trace_def batchEvents_def)
  have "\<not> importOk r (importCalls (?W m))"
    using assms(3) by (simp add: advance_sel)
  then obtain msg where
    last: "importBatch r project s (?bs ! m) (0 + m + 1) (length ?bs) (?W m) =
        (Inl (ImportError msg project),
         advance 1 (failedRequest r project (?bs ! m) (importCalls (?W m))) (?W m))"
    using importBatch_fail by blast
  have "forBatches (importBatch r project s) ?bs 0 (length ?bs) (?W 0) =
      (Inl (ImportError msg project),
       advance 1 (failedRequest r project (?bs ! m) (importCalls (?W m))) (?W m))"
    using assms(1) step last by (rule forBatches_stop)
  moreover have "?W 0 = w" by (simp add: trace_def advance_0)
  ultimately have "importPagesToProject r project pages s w =
      (Inl (ImportError msg project),
       advance (m + 1) (trace project ?bs m @ failedRequest r project (?bs ! m) (importCalls w + m)) w)"
    using ne BATCH_SIZE_pos
    by (simp add: importPagesToProject_def processBatchesEffect_def Let_def advance_advance advance_sel)
  then show ?thesis by blast
qed

section \<open>The checkpoint text\<close>

lemma digit_cases: "d < 10 \<Longrightarrow> d \<in> {0, 1, 2, 3, 4, 5, 6, 7, 8, 9::nat}"
  by auto

lemma digitChar_props:
  assumes "d < 10"
  shows "isDigit (digitChar d)" and "digitVal (digitChar d) = d"
    and "\<not> isWhiteSpace (digitChar d)" and "digitChar d \<noteq> CHR ''-''" and "digitChar d \<noteq> CHR ''+''"
  using digit_cases [OF assms]
  by (auto simp: digitChar_def isDigit_def digitVal_def isWhiteSpace_def)

lemma digitsVal_snoc: "digitsVal (ds @ [c]) = 10 * digitsVal ds + digitVal c"
  by (simp add: digitsVal_def)

lemma toString_nat_digits: "c \<in> set (toString_nat n) \<Longrightarrow> isDigit c"
proof (induction n arbitrary: c rule: toString_nat.induct)
  case (1 n)
  show ?case
  proof (cases "n < 10")
    case True
    with "1.prems" show ?thesis
      by (simp add: toString_nat.simps [of n] digitChar_props)
  next
    case False
    with "1.prems" "1.IH" show ?thesis
      by (auto simp: toString_nat.simps [of n] digitChar_props)
  qed
qed

lemma toString_nat_value: "digitsVal (toString_nat n) = n"
proof (induction n rule: toString_nat.induct)
  case (1 n)
  show ?case
  proof (cases "n < 10")
    case True
    then show ?thesis
      by (simp add: toString_nat.simps [of n] digitsVal_def digitChar_props)
  next
    case False
    with "1.IH" show ?thesis
      by (simp add: toString_nat.simps [of n] digitsVal_snoc digitChar_props)
  qed
qed

lemma toString_nat_Cons: "\<exists>c cs. toString_nat n = c # cs \<and> isDigit c"
proof -
  have "toString_nat n \<noteq> []"
    by (simp add: toString_nat.simps [of n])
  then obtain c cs where "toString_nat n = c # cs"
    by (cases "toString_nat n") auto
  moreover from this have "isDigit c"
    using toString_nat_digits [of c n] by simp
  ultimately show ?thesis by blast
qed

lemma isDigit_not_other:
  "isDigit c \<Longrightarrow> \<not> isWhiteSpace c \<and> c \<noteq> CHR ''-'' \<and> c \<noteq> CHR ''+''"
  by (auto simp: isDigit_def isWhiteSpace_def)

lemma parseDigits_toString_nat: "parseDigits (toString_nat n) = Some n"
proof -
  have tw: "takeWhile isDigit (toString_nat n) = toString_nat n"
    by (simp add: takeWhile_eq_all_conv toString_nat_digits)
  have ne: "toString_nat n \<noteq> []"
    using toString_nat_Cons [of n] by auto
  show ?thesis
    unfolding parseDigits_def Let_def tw using ne by (simp add: toString_nat_value)
qed

lemma parseInt_toString: "parseInt (toString n) = Num n"
proof (cases "n < 0")
  case True
  have "\<not> isWhiteSpace CHR ''-''" by (simp add: isWhiteSpace_def)
  then show ?thesis using True
    by (simp add: parseInt_def toString_def parseDigits_toString_nat)
next
  case False
  obtain c cs where cs: "toString_nat (nat n) = c # cs" and d: "isDigit c"
    using toString_nat_Cons by blast
  have "parseDigits (c # cs) = Some (nat n)"
    using parseDigits_toString_nat [of "nat n"] cs by simp
  then show ?thesis using False cs isDigit_not_other [OF d]
    by (simp add: parseInt_def toString_def)
qed

lemma toString_nat_numeral:
  "toString_nat (numeral v) =
     (if numeral v < (10::nat) then [digitChar (numeral v)]
      else toString_nat (numeral v div 10) @ [digitChar (numeral v mod 10)])"
  by (rule toString_nat.simps)

lemma toString_nat_small: "toString_nat 0 = ''0''" "toString_nat (Suc 0) = ''1''"
  by (simp_all add: toString_nat.simps [of 0] toString_nat.simps [of "Suc 0"] digitChar_def)

lemma toString_INITIAL: "toString INITIAL_IMPORT_TIME = ''1745842021''"
  by (simp add: toString_def INITIAL_IMPORT_TIME_def toString_nat_numeral toString_nat_small digitChar_def)

lemma parseInt_examples:
  "parseInt ''abc'' = NaN" "parseInt '''' = NaN" "parseInt ''1745842021'' = Num 1745842021"
  "parseInt '' 42abc'' = Num 42" "parseInt ''-7'' = Num (- 7)"
  by (simp_all add: parseInt_def parseDigits_def isDigit_def isWhiteSpace_def digitsVal_def digitVal_def)

section \<open>The batch importers\<close>

lemma batches_two:
  assumes "b < length xs" and "length xs \<le> 2 * b"
  shows "batches xs b = [take b xs, drop b xs]"
proof -
  have "ceilDiv (length xs) b = 2"
    using assms unfolding ceilDiv_def by (intro div_nat_eqI) auto
  moreover have "[0..<2] = [0, Suc 0]" by (simp add: upt_rec)
  ultimately show ?thesis using assms by (simp add: batches_def slice_def)
qed

lemma batches_three:
  assumes "2 * b < length xs" and "length xs \<le> 3 * b"
  shows "batches xs b = [take b xs, take b (drop b xs), drop (2 * b) xs]"
proof -
  have "ceilDiv (length xs) b = 3"
    using assms unfolding ceilDiv_def by (intro div_nat_eqI) auto
  moreover have "[0..<3] = [0, Suc 0, 2]" by (simp add: upt_rec)
  ultimately show ?thesis using assms by (simp add: batches_def slice_def)
qed

lemma length_numberedPages: "length (numberedPages n) = n"
  by (simp add: numberedPages_def)

lemma numberedPage_sel:
  "updated (numberedPage i) = 7" "lines (numberedPage i) = [\<lparr>text = ''page''\<rparr>]"
  by (simp_all add: numberedPage_def)

lemma numberedPages_updated: "q \<in> set (numberedPages n) \<Longrightarrow> updated q = 7"
  by (auto simp: numberedPages_def numberedPage_sel)

lemma numberedPages_kept: "filterPrivateIconPages (numberedPages n) = numberedPages n"
  by (simp add: filterPrivateIconPages_def isIncludedIcon_def numberedPages_def numberedPage_sel
      filter_id_conv)

lemma numberedPages_new: "newPages (numberedPages n) (Num 0) = numberedPages n"
  by (simp add: newPages_def numberedPages_def numberedPage_sel filter_id_conv)

lemma batches_numbered:
  "batches (numberedPages 101) BATCH_SIZE =
     [take 100 (numberedPages 101), drop 100 (numberedPages 101)]"
  "batches (numberedPages 250) BATCH_SIZE =
     [take 100 (numberedPages 250), take 100 (drop 100 (numberedPages 250)),
      drop 200 (numberedPages 250)]"
  using batches_two [of 100 "numberedPages 101"] batches_three [of 100 "numberedPages 250"]
  by (simp_all add: BATCH_SIZE_def length_numberedPages)

lemma importOk_okRemote: "importOk (okRemote ps) n"
  by (simp add: importOk_def okRemote_def)


text \<open>
  Claim C10. On the empty page list every variant of the batch import returns
  successfully and leaves the world as it was: no import request, no profile (CSRF
  token) request, no pause.
\<close>

theorem importPagesToProject_empty:
  "importPagesToProject r project [] s w = (Inr (), w)
   \<and> importPagesToProject_index r c [] w = (Inr (), w)
   \<and> importPagesToProject_part000 r c [] w = (Inr (), w)"
  by (simp add: importPagesToProject_def importPagesToProject_index_def
      importPagesToProject_part000_def)

lemma batches_numbered_201:
  "batches (numberedPages 201) BATCH_SIZE =
     [take 100 (numberedPages 201), take 100 (drop 100 (numberedPages 201)),
      drop 200 (numberedPages 201)]"
  using batches_three [of 100 "numberedPages 201"]
  by (simp add: BATCH_SIZE_def length_numberedPages)

lemma secondFailsRemote_sel:
  "importPages_result (secondFailsRemote ps) n =
     (if n = 1 then Inl (''ImportError'', ''rejected'') else Inr ''ok'')"
  "getProfile_result (secondFailsRemote ps) n = ProfileOk"
  "fetch_result (secondFailsRemote ps) n =
     (if n = 1 then Response 500 ''rejected'' else Response 200 ''ok'')"
  by (simp_all add: secondFailsRemote_def)





text \<open>
  The promise chain on the same input: the failed second batch is followed at once by
  the request for the third (the return in place of a throw, as under claim C1).
\<close>

lemma part000_no_pause_after_failed_batch:
  "importPagesToProject_part000 (secondFailsRemote []) exampleConfig (numberedPages 201) startWorld =
     (Inr (),
      \<lparr>file = Some ''0'',
        events = [ImportPages ''dst'' (take 100 (numberedPages 201)), Sleep 1000,
                  ImportPages ''dst'' (take 100 (drop 100 (numberedPages 201))),
                  ImportPages ''dst'' (drop 200 (numberedPages 201))],
        importCalls = 3\<rparr>)"
  by (simp add: importPagesToProject_part000_trace batches_numbered_201 trace_part000_def
      upt_rec depsOk_def secondFailsRemote_sel startWorld_def exampleConfig_def pause_def
      advance_def)

section \<open>The checkpoint and the importers\<close>

lemma writes_append: "writes (a @ b) = writes a @ writes b"
  by (induction a rule: writes.induct) auto

lemma writes_concat_nil:
  "(\<And>x. x \<in> set xs \<Longrightarrow> writes (f x) = []) \<Longrightarrow> writes (concat (map f xs)) = []"
  by (induction xs) (auto simp: writes_append)

lemma quiet_refl: "quiet w w"
  unfolding quiet_def using advance_0 [of w] by (metis writes.simps(1))

lemma quiet_trans: "quiet w w' \<Longrightarrow> quiet w' w'' \<Longrightarrow> quiet w w''"
  unfolding quiet_def by (metis advance_advance writes_append append_Nil)

lemma quiet_advance: "writes evs = [] \<Longrightarrow> quiet w (advance n evs w)"
  unfolding quiet_def by blast

lemma quiet_file: "quiet w w' \<Longrightarrow> file w' = file w"
  unfolding quiet_def by (auto simp: advance_sel)

lemma quiet_writes: "quiet w w' \<Longrightarrow> writes (events w') = writes (events w)"
  unfolding quiet_def by (auto simp: advance_sel writes_append)

lemma quiet_emit:
  "writes [e] = [] \<Longrightarrow> quiet w (emit e w)"
  unfolding quiet_def emit_def advance_def by (intro exI [of _ 0] exI [of _ "[e]"]) simp

lemma written_file: "file (written t w) = Some (toString t)"
  by (simp add: written_def emit_def)

lemma written_writes: "writes (events (written t w)) = writes (events w) @ [toString t]"
  by (simp add: written_def emit_def writes_append)

lemma written_events: "events (written t w) = events w @ [WriteTextFile LAST_IMPORT_FILE (toString t)]"
  by (simp add: written_def emit_def)

lemma written_importCalls: "importCalls (written t w) = importCalls w"
  by (simp add: written_def emit_def)

subsection \<open>Checkpoint store\<close>

lemma saveLastImportTime_cases:
  "saveLastImportTime r t w =
     (case write_error r of Some (n, m) \<Rightarrow> (Inl (JsError n m), w) | None \<Rightarrow> (Inr (), written t w))"
  by (simp add: saveLastImportTime_def written_def split: option.splits)

lemma saveLastImportTimeEffect_cases:
  "saveLastImportTimeEffect r t w =
     (case write_error r of
        Some (n, m) \<Rightarrow> (Inl (FileWriteError m LAST_IMPORT_FILE), w)
      | None \<Rightarrow> (Inr (), written t w))"
  by (simp add: saveLastImportTimeEffect_def written_def split: option.splits)

lemma getLastImportTime_cases:
  "getLastImportTime r w =
     (case file w of
        Some content \<Rightarrow> (Inr (parseInt content), w)
      | None \<Rightarrow>
          (case write_error r of
             Some (n, m) \<Rightarrow> (Inl (JsError n m), w)
           | None \<Rightarrow> (Inr (Num INITIAL_IMPORT_TIME), written INITIAL_IMPORT_TIME w)))"
  by (simp add: getLastImportTime_def saveLastImportTime_cases andThen_def split: option.splits)

lemma getLastImportTimeEffect_cases:
  "getLastImportTimeEffect r w =
     (case file w of
        Some content \<Rightarrow> (Inr (parseInt content), w)
      | None \<Rightarrow>
          (case write_error r of
             Some (n, m) \<Rightarrow> (Inl (FileWriteError m LAST_IMPORT_FILE), w)
           | None \<Rightarrow> (Inr (Num INITIAL_IMPORT_TIME), written INITIAL_IMPORT_TIME w)))"
  by (simp add: getLastImportTimeEffect_def saveLastImportTimeEffect_cases andThen_def
      split: option.splits)

subsection \<open>The importers write nothing to the checkpoint\<close>

lemma importPagesToProject_index_quiet:
  "quiet w (snd (importPagesToProject_index r c ps w))"
proof (cases "ps = []")
  case True
  then show ?thesis by (simp add: importPagesToProject_index_def quiet_refl)
next
  case False
  have "snd (importPagesToProject_index r c ps w) =
      advance 1 [ImportPages (importingProjectName c) ps] w"
    using False
    by (auto simp: importPagesToProject_index_def deps_importPages_def emit_count
        split: sum.splits prod.splits)
  then show ?thesis by (simp add: quiet_advance)
qed

lemma importPagesToProject_part000_quiet:
  "quiet w (snd (importPagesToProject_part000 r c ps w))"
proof -
  have "writes (trace_part000 r (importingProjectName c) (batches ps BATCH_SIZE) (importCalls w)
      (length (batches ps BATCH_SIZE))) = []"
    unfolding trace_part000_def by (rule writes_concat_nil) (simp add: pause_def)
  then show ?thesis
    by (simp add: importPagesToProject_part000_trace quiet_advance)
qed

lemma importBatch_quiet: "quiet w (snd (importBatch r project s b n k w))"
proof (cases "importOk r (importCalls w)")
  case True
  then have "snd (importBatch r project s b n k w) =
      advance 1 (GetProfile # Fetch project b # (if n < k then [Sleep 1000] else [])) w"
    by (simp add: importBatch_def andThen_def importPages_ok emit_advance)
  then show ?thesis by (simp add: quiet_advance)
next
  case False
  then obtain msg where "importBatch r project s b n k w =
      (Inl (ImportError msg project), advance 1 (failedRequest r project b (importCalls w)) w)"
    using importBatch_fail by blast
  then show ?thesis by (simp add: quiet_advance failedRequest_def)
qed

lemma forBatches_quiet:
  assumes "\<And>b n w. quiet w (snd (f b n k w))"
  shows "quiet w (snd (forBatches f rest i k w))"
proof (induction rest arbitrary: i w)
  case Nil
  then show ?case by (simp add: quiet_refl)
next
  case (Cons b rest)
  obtain res w' where step: "f b (i + 1) k w = (res, w')"
    by (cases "f b (i + 1) k w")
  then have q: "quiet w w'"
    using assms [of w b "i + 1"] by simp
  show ?case
  proof (cases res)
    case (Inl e)
    then show ?thesis using step q by (simp add: andThen_def)
  next
    case (Inr u)
    have "quiet w' (snd (forBatches f rest (i + 1) k w'))" by (rule Cons.IH)
    then have "quiet w (snd (forBatches f rest (i + 1) k w'))" using q quiet_trans by blast
    then show ?thesis using step Inr by (simp add: andThen_def)
  qed
qed

lemma importPagesToProject_quiet:
  "quiet w (snd (importPagesToProject r project ps s w))"
  by (simp add: importPagesToProject_def processBatchesEffect_def BATCH_SIZE_def Let_def
      quiet_refl forBatches_quiet importBatch_quiet)

section \<open>What a run does to the checkpoint\<close>

lemma maxUpdated_Max: "maxUpdated p ps = Max (updated ` set (p # ps))"
  unfolding maxUpdated_def by (metis Max.set_eq_fold list.simps(9) set_map)

lemma maxUpdated_ge: "q \<in> set (p # ps) \<Longrightarrow> updated q \<le> maxUpdated p ps"
  unfolding maxUpdated_Max by (intro Max_ge) auto

lemma maxUpdated_mem: "maxUpdated p ps \<in> updated ` set (p # ps)"
  unfolding maxUpdated_Max by (intro Max_in) auto

lemma newPages_Cons_gt:
  assumes "newPages P t = p # ps"
  shows "\<exists>c. t = Num c \<and> c < maxUpdated p ps"
proof (cases t)
  case NaN
  with assms show ?thesis by (simp add: newPages_def)
next
  case (Num c)
  have "p \<in> set (newPages P (Num c))" using assms Num by simp
  then have "c < updated p" by (simp add: newPages_def)
  moreover have "updated p \<le> maxUpdated p ps" by (simp add: maxUpdated_ge)
  ultimately show ?thesis using Num by simp
qed

lemma export_index_world:
  "snd (exportPagesFromProject_index r c w) = emit (ExportPages (exportingProjectName c)) w"
  by (simp add: exportPagesFromProject_index_def Let_def split: sum.splits prod.splits)

lemma export_world:
  "snd (exportPagesFromProject r project s w) = emit (ExportPages project) w"
  by (simp add: exportPagesFromProject_def Let_def split: sum.splits prod.splits)

lemma emit_export_file: "file (emit (ExportPages p) w) = file w"
  by (simp add: emit_def)

lemma emit_export_writes: "writes (events (emit (ExportPages p) w)) = writes (events w)"
  by (simp add: emit_def writes_append)

text \<open>The part of a run after the export, for a given importer and checkpoint writer.\<close>

lemma after_read_step:
  assumes imp: "\<And>w. quiet w (snd (importer w))"
    and save: "\<And>w. save w = (case write_error r of Some (n, m) \<Rightarrow> (Inl (err n m), w) | None \<Rightarrow> (Inr (), written v w))"
    and res: "andThen importer (\<lambda>_. save) w2 = (res, w')"
  shows "(file w' = file w2 \<and> writes (events w') = writes (events w2))
       \<or> (write_error r = None \<and> file w' = Some (toString v)
           \<and> writes (events w') = writes (events w2) @ [toString v])"
proof -
  obtain ri w3 where i: "importer w2 = (ri, w3)" by (cases "importer w2")
  then have q: "quiet w2 w3" using imp [of w2] by simp
  show ?thesis
  proof (cases ri)
    case (Inl e)
    then show ?thesis using i q res by (auto simp: andThen_def quiet_file quiet_writes)
  next
    case (Inr u)
    show ?thesis
    proof (cases "write_error r")
      case None
      then have "w' = written v w3" using i Inr res save [of w3] by (simp add: andThen_def)
      then show ?thesis using None q
        by (simp add: written_file written_writes quiet_writes)
    next
      case (Some nm)
      then have "w' = w3" using i Inr res save [of w3]
        by (cases nm) (simp add: andThen_def)
      then show ?thesis using q by (simp add: quiet_file quiet_writes)
    qed
  qed
qed

lemma checkpointStep_start:
  assumes "checkpointStep w1 w'" and f: "file w1 = file w"
    and e: "writes (events w1) = writes (events w)"
  shows "checkpointStep w w'"
  using assms(1)
proof (cases rule: checkpointStep.cases)
  case untouched
  then show ?thesis using f e by (simp add: checkpointStep.untouched)
next
  case seeded
  then show ?thesis using f e by (simp add: checkpointStep.seeded)
next
  case (advanced s t v)
  then show ?thesis using f e checkpointStep.advanced [of w s t v w'] by simp
next
  case (seeded_advanced v)
  then show ?thesis using f e checkpointStep.seeded_advanced [of w v w'] by simp
qed

lemma after_export_step:
  assumes read: "read w1 =
      (case file w1 of
         Some content \<Rightarrow> (Inr (parseInt content), w1)
       | None \<Rightarrow>
           (case write_error r of
              Some (n, m) \<Rightarrow> (Inl (rerr n m), w1)
            | None \<Rightarrow> (Inr (Num INITIAL_IMPORT_TIME), written INITIAL_IMPORT_TIME w1)))"
    and imp: "\<And>ps w. quiet w (snd (importer ps w))"
    and save: "\<And>v w. save v w =
      (case write_error r of Some (n, m) \<Rightarrow> (Inl (err n m), w) | None \<Rightarrow> (Inr (), written v w))"
    and res: "andThen read (\<lambda>t w2.
        case newPages P t of
          [] \<Rightarrow> (Inr (), w2)
        | p # ps \<Rightarrow> andThen (importer (p # ps)) (\<lambda>_. save (maxUpdated p ps)) w2) w1 = (res, w')"
  shows "checkpointStep w1 w'"
proof (cases "file w1")
  case (Some s)
  then have rd: "read w1 = (Inr (parseInt s), w1)" using read by simp
  show ?thesis
  proof (cases "newPages P (parseInt s)")
    case Nil
    then have "w' = w1" using rd res by (simp add: andThen_def)
    then show ?thesis by (simp add: untouched)
  next
    case (Cons p ps)
    then obtain c where c: "parseInt s = Num c" "c < maxUpdated p ps"
      using newPages_Cons_gt by blast
    have "andThen (importer (p # ps)) (\<lambda>_. save (maxUpdated p ps)) w1 = (res, w')"
      using rd res Cons by (simp add: andThen_def)
    then have "(file w' = file w1 \<and> writes (events w') = writes (events w1))
       \<or> (write_error r = None \<and> file w' = Some (toString (maxUpdated p ps))
           \<and> writes (events w') = writes (events w1) @ [toString (maxUpdated p ps)])"
      by (rule after_read_step [OF imp save])
    then show ?thesis using Some c
      by (auto intro: untouched advanced)
  qed
next
  case None
  show ?thesis
  proof (cases "write_error r")
    case (Some nm)
    then have "read w1 = (Inl (rerr (fst nm) (snd nm)), w1)"
      using read None by (cases nm) simp
    then have "w' = w1" using res by (simp add: andThen_def)
    then show ?thesis by (simp add: untouched)
  next
    case none: None
    let ?w2 = "written INITIAL_IMPORT_TIME w1"
    have rd: "read w1 = (Inr (Num INITIAL_IMPORT_TIME), ?w2)"
      using read None none by simp
    show ?thesis
    proof (cases "newPages P (Num INITIAL_IMPORT_TIME)")
      case Nil
      then have "w' = ?w2" using rd res by (simp add: andThen_def)
      then show ?thesis using None
        by (simp add: seeded written_file written_writes)
    next
      case (Cons p ps)
      then have gt: "INITIAL_IMPORT_TIME < maxUpdated p ps"
        using newPages_Cons_gt by fastforce
      have "andThen (importer (p # ps)) (\<lambda>_. save (maxUpdated p ps)) ?w2 = (res, w')"
        using rd res Cons by (simp add: andThen_def)
      then have "(file w' = file ?w2 \<and> writes (events w') = writes (events ?w2))
         \<or> (write_error r = None \<and> file w' = Some (toString (maxUpdated p ps))
             \<and> writes (events w') = writes (events ?w2) @ [toString (maxUpdated p ps)])"
        by (rule after_read_step [OF imp save])
      then show ?thesis using None gt
        by (auto simp: written_file written_writes intro: seeded seeded_advanced)
    qed
  qed
qed

lemma main_index_checkpoint:
  assumes "main_index r w = (res, w')"
  shows "checkpointStep w w'"
proof (cases "getConfig r")
  case (Inl e)
  then have "w' = w" using assms by (simp add: main_index_def)
  then show ?thesis by (simp add: untouched)
next
  case (Inr c)
  let ?w1 = "emit (ExportPages (exportingProjectName c)) w"
  show ?thesis
  proof (cases "exportPages_result r")
    case (Inl nm)
    then have "w' = ?w1" using assms Inr
      by (cases nm) (simp add: main_index_def andThen_def exportPagesFromProject_index_def)
    then show ?thesis by (simp add: untouched emit_export_file emit_export_writes)
  next
    case pages: (Inr pages)
    have "andThen (getLastImportTime r) (\<lambda>t w2.
        case newPages (filterPrivateIconPages pages) t of
          [] \<Rightarrow> (Inr (), w2)
        | p # ps \<Rightarrow> andThen (importPagesToProject_index r c (p # ps))
                     (\<lambda>_. saveLastImportTime r (maxUpdated p ps)) w2) ?w1 = (res, w')"
      using assms Inr pages
      by (simp add: main_index_def andThen_def exportPagesFromProject_index_def)
    then have "checkpointStep ?w1 w'"
      by (rule after_export_step [OF getLastImportTime_cases importPagesToProject_index_quiet
            saveLastImportTime_cases])
    then show ?thesis
      by (rule checkpointStep_start) (simp_all add: emit_export_file emit_export_writes)
  qed
qed

lemma main_part000_checkpoint:
  assumes "main_part000 r w = (res, w')"
  shows "checkpointStep w w'"
proof (cases "getConfig r")
  case (Inl e)
  then have "w' = w" using assms by (simp add: main_part000_def)
  then show ?thesis by (simp add: untouched)
next
  case (Inr c)
  let ?w1 = "emit (ExportPages (exportingProjectName c)) w"
  show ?thesis
  proof (cases "exportPages_result r")
    case (Inl nm)
    then have "w' = ?w1" using assms Inr
      by (cases nm) (simp add: main_part000_def andThen_def exportPagesFromProject_index_def)
    then show ?thesis by (simp add: untouched emit_export_file emit_export_writes)
  next
    case pages: (Inr pages)
    have "andThen (getLastImportTime r) (\<lambda>t w2.
        case newPages (filterPrivateIconPages pages) t of
          [] \<Rightarrow> (Inr (), w2)
        | p # ps \<Rightarrow> andThen (importPagesToProject_part000 r c (p # ps))
                     (\<lambda>_. saveLastImportTime r (maxUpdated p ps)) w2) ?w1 = (res, w')"
      using assms Inr pages
      by (simp add: main_part000_def andThen_def exportPagesFromProject_index_def)
    then have "checkpointStep ?w1 w'"
      by (rule after_export_step [OF getLastImportTime_cases importPagesToProject_part000_quiet
            saveLastImportTime_cases])
    then show ?thesis
      by (rule checkpointStep_start) (simp_all add: emit_export_file emit_export_writes)
  qed
qed

lemma mainEffect_checkpoint:
  assumes "mainEffect r w = (res, w')"
  shows "checkpointStep w w'"
proof (cases "getConfig r")
  case (Inl e)
  then have "w' = w" using assms by (simp add: mainEffect_def getConfigEffect_def)
  then show ?thesis by (simp add: untouched)
next
  case (Inr c)
  let ?w1 = "emit (ExportPages (exportingProjectName c)) w"
  show ?thesis
  proof (cases "exportPages_result r")
    case (Inl nm)
    then have "w' = ?w1" using assms Inr
      by (cases nm)
         (simp add: mainEffect_def getConfigEffect_def andThen_def exportPagesFromProject_def)
    then show ?thesis by (simp add: untouched emit_export_file emit_export_writes)
  next
    case pages: (Inr pages)
    have "andThen (getLastImportTimeEffect r) (\<lambda>t w2.
        case newPages (filterPrivateIconPages pages) t of
          [] \<Rightarrow> (Inr (), w2)
        | p # ps \<Rightarrow> andThen (importPagesToProject r (importingProjectName c) (p # ps) (sid c))
                     (\<lambda>_. saveLastImportTimeEffect r (maxUpdated p ps)) w2) ?w1 = (res, w')"
      using assms Inr pages
      by (simp add: mainEffect_def getConfigEffect_def andThen_def exportPagesFromProject_def)
    then have "checkpointStep ?w1 w'"
      by (rule after_export_step [OF getLastImportTimeEffect_cases
            importPagesToProject_quiet saveLastImportTimeEffect_cases])
    then show ?thesis
      by (rule checkpointStep_start) (simp_all add: emit_export_file emit_export_writes)
  qed
qed

section \<open>The runs\<close>

lemma toString_7: "toString 7 = ''7''"
  by (simp add: toString_def toString_nat_numeral digitChar_def)

lemma getConfig_example:
  "getConfig (okRemote ps) = Inr exampleConfig" "getConfig (firstFailsRemote ps) = Inr exampleConfig"
  by (simp_all add: getConfig_def okRemote_def firstFailsRemote_def exampleEnv_def exampleConfig_def)

lemma filter_examples:
  "filterPrivateIconPages [pageA, pageB, pageC] = [pageA, pageB]"
  "filterPrivateIconPages [pageB] = [pageB]"
  by (simp_all add: filterPrivateIconPages_def isIncludedIcon_def pageA_def pageB_def pageC_def)

lemma parseInt_small: "parseInt ''0'' = Num 0" "parseInt ''7'' = Num 7" "parseInt ''abc'' = NaN"
  by (simp_all add: parseInt_def parseDigits_def isDigit_def isWhiteSpace_def digitsVal_def digitVal_def)

lemma okRemote_sel:
  "env (okRemote ps) = exampleEnv" "exportPages_result (okRemote ps) = Inr ps"
  "importPages_result (okRemote ps) n = Inr ''ok''" "getProfile_result (okRemote ps) n = ProfileOk"
  "fetch_result (okRemote ps) n = Response 200 ''ok''" "write_error (okRemote ps) = None"
  by (simp_all add: okRemote_def)

lemma firstFailsRemote_sel:
  "env (firstFailsRemote ps) = exampleEnv" "exportPages_result (firstFailsRemote ps) = Inr ps"
  "importPages_result (firstFailsRemote ps) n =
     (if n = 0 then Inl (''ImportError'', ''rejected'') else Inr ''ok'')"
  "getProfile_result (firstFailsRemote ps) n = ProfileOk"
  "fetch_result (firstFailsRemote ps) n =
     (if n = 0 then Response 500 ''rejected'' else Response 200 ''ok'')"
  "write_error (firstFailsRemote ps) = None"
  by (simp_all add: firstFailsRemote_def)

lemma exampleConfig_sel:
  "sid exampleConfig = ''secret''" "exportingProjectName exampleConfig = ''src''"
  "importingProjectName exampleConfig = ''dst''"
  by (simp_all add: exampleConfig_def)

lemma updated_examples: "updated pageA = 5" "updated pageB = 7" "updated pageC = 9"
  by (simp_all add: pageA_def pageB_def pageC_def)

subsection \<open>The run after the checkpoint read\<close>

lemma main_index_after_read:
  assumes "getConfig r = Inr c" and "exportPages_result r = Inr pages"
    and "getLastImportTime r (emit (ExportPages (exportingProjectName c)) w) = (Inr t, w2)"
  shows "main_index r w =
     (case newPages (filterPrivateIconPages pages) t of
        [] \<Rightarrow> (Inr (), w2)
      | p # ps \<Rightarrow> andThen (importPagesToProject_index r c (p # ps))
                   (\<lambda>_. saveLastImportTime r (maxUpdated p ps)) w2)"
  using assms by (simp add: main_index_def andThen_def exportPagesFromProject_index_def)

lemma main_part000_after_read:
  assumes "getConfig r = Inr c" and "exportPages_result r = Inr pages"
    and "getLastImportTime r (emit (ExportPages (exportingProjectName c)) w) = (Inr t, w2)"
  shows "main_part000 r w =
     (case newPages (filterPrivateIconPages pages) t of
        [] \<Rightarrow> (Inr (), w2)
      | p # ps \<Rightarrow> andThen (importPagesToProject_part000 r c (p # ps))
                   (\<lambda>_. saveLastImportTime r (maxUpdated p ps)) w2)"
  using assms by (simp add: main_part000_def andThen_def exportPagesFromProject_index_def)

lemma mainEffect_after_read:
  assumes "getConfig r = Inr c" and "exportPages_result r = Inr pages"
    and "getLastImportTimeEffect r (emit (ExportPages (exportingProjectName c)) w) = (Inr t, w2)"
  shows "mainEffect r w =
     (case newPages (filterPrivateIconPages pages) t of
        [] \<Rightarrow> (Inr (), w2)
      | p # ps \<Rightarrow> andThen (importPagesToProject r (importingProjectName c) (p # ps) (sid c))
                   (\<lambda>_. saveLastImportTimeEffect r (maxUpdated p ps)) w2)"
  using assms
  by (simp add: mainEffect_def getConfigEffect_def andThen_def exportPagesFromProject_def)

lemma getLastImportTime_Inr:
  assumes "getLastImportTime r w = (Inr t, w2)"
  shows "(\<exists>s. file w = Some s \<and> t = parseInt s \<and> w2 = w)
       \<or> (file w = None \<and> write_error r = None \<and> t = Num INITIAL_IMPORT_TIME
           \<and> w2 = written INITIAL_IMPORT_TIME w)"
  using assms by (auto simp: getLastImportTime_cases split: option.splits)

lemma getLastImportTimeEffect_agrees:
  "getLastImportTime r w = (Inr t, w2) \<Longrightarrow> getLastImportTimeEffect r w = (Inr t, w2)"
  by (auto simp: getLastImportTime_cases getLastImportTimeEffect_cases split: option.splits)

text \<open>
  Claim C8. When the run gets as far as the selection (the configuration and the
  export succeed and the checkpoint read yields \<open>t\<close>, leaving the world \<open>w2\<close>) and the
  delta is empty, every variant of the run ends successfully in that world \<open>w2\<close>: no
  import request has been made, the only events are the export and, if the file was
  absent, the seeding write of the read itself; a file that existed is untouched, and
  the stored text parses to the watermark \<open>t\<close> that was read.
\<close>

theorem empty_delta_run:
  assumes "getConfig r = Inr c" and "exportPages_result r = Inr pages"
    and "getLastImportTime r (emit (ExportPages (exportingProjectName c)) w) = (Inr t, w2)"
    and "newPages (filterPrivateIconPages pages) t = []"
  shows "main_index r w = (Inr (), w2) \<and> main_part000 r w = (Inr (), w2)
       \<and> mainEffect r w = (Inr (), w2)
       \<and> importCalls w2 = importCalls w
       \<and> events w2 = events w @ ExportPages (exportingProjectName c) #
            (if file w = None
             then [WriteTextFile LAST_IMPORT_FILE (toString INITIAL_IMPORT_TIME)] else [])
       \<and> (file w \<noteq> None \<longrightarrow> file w2 = file w)
       \<and> (\<exists>s. file w2 = Some s \<and> parseInt s = t)"
proof -
  let ?w1 = "emit (ExportPages (exportingProjectName c)) w"
  have 1: "main_index r w = (Inr (), w2)"
    using main_index_after_read [OF assms(1,2,3)] assms(4) by simp
  have 2: "main_part000 r w = (Inr (), w2)"
    using main_part000_after_read [OF assms(1,2,3)] assms(4) by simp
  have 3: "mainEffect r w = (Inr (), w2)"
    using mainEffect_after_read [OF assms(1,2) getLastImportTimeEffect_agrees [OF assms(3)]]
      assms(4) by simp
  have w1: "file ?w1 = file w" "events ?w1 = events w @ [ExportPages (exportingProjectName c)]"
    "importCalls ?w1 = importCalls w"
    by (simp_all add: emit_def)
  from getLastImportTime_Inr [OF assms(3)]
  have 4: "importCalls w2 = importCalls w
       \<and> events w2 = events w @ ExportPages (exportingProjectName c) #
            (if file w = None
             then [WriteTextFile LAST_IMPORT_FILE (toString INITIAL_IMPORT_TIME)] else [])
       \<and> (file w \<noteq> None \<longrightarrow> file w2 = file w)
       \<and> (\<exists>s. file w2 = Some s \<and> parseInt s = t)"
  proof
    assume "\<exists>s. file ?w1 = Some s \<and> t = parseInt s \<and> w2 = ?w1"
    then show ?thesis using w1 by auto
  next
    assume "file ?w1 = None \<and> write_error r = None \<and> t = Num INITIAL_IMPORT_TIME
           \<and> w2 = written INITIAL_IMPORT_TIME ?w1"
    then show ?thesis using w1
      by (simp add: written_file written_events written_importCalls parseInt_toString)
  qed
  show ?thesis using 1 2 3 4 by blast
qed

theorem empty_delta_run_witness:
  "main_index (okRemote [pageA, pageB, pageC]) laterWorld =
     (Inr (), \<lparr>file = Some ''7'', events = [ExportPages ''src''], importCalls = 0\<rparr>)
   \<and> main_part000 (okRemote [pageA, pageB, pageC]) laterWorld =
     (Inr (), \<lparr>file = Some ''7'', events = [ExportPages ''src''], importCalls = 0\<rparr>)
   \<and> mainEffect (okRemote [pageA, pageB, pageC]) laterWorld =
     (Inr (), \<lparr>file = Some ''7'', events = [ExportPages ''src''], importCalls = 0\<rparr>)
   \<and> newPages (filterPrivateIconPages [pageA, pageB, pageC]) (Num 7) = []"
proof -
  let ?r = "okRemote [pageA, pageB, pageC]"
  let ?w2 = "\<lparr>file = Some ''7'', events = [ExportPages ''src''], importCalls = 0\<rparr>"
  have cfg: "getConfig ?r = Inr exampleConfig" by (rule getConfig_example)
  have exp: "exportPages_result ?r = Inr [pageA, pageB, pageC]" by (simp add: okRemote_sel)
  have rd: "getLastImportTime ?r (emit (ExportPages (exportingProjectName exampleConfig)) laterWorld)
      = (Inr (Num 7), ?w2)"
    by (simp add: getLastImportTime_cases emit_def laterWorld_def parseInt_small exampleConfig_sel)
  have delta: "newPages (filterPrivateIconPages [pageA, pageB, pageC]) (Num 7) = []"
    by (simp add: filter_examples newPages_def updated_examples)
  show ?thesis
    using empty_delta_run [OF cfg exp rd delta] delta by simp
qed

lemma run_index_ok:
  "main_index (okRemote [pageA, pageB, pageC]) startWorld =
     (Inr (), \<lparr>file = Some ''7'',
               events = [ExportPages ''src'', ImportPages ''dst'' [pageA, pageB],
                         WriteTextFile ''last_import.txt'' ''7''],
               importCalls = 1\<rparr>)"
  by (simp add: main_index_def getConfig_example andThen_def exportPagesFromProject_index_def
      getLastImportTime_cases saveLastImportTime_cases written_def
      importPagesToProject_index_def deps_importPages_def
      filter_examples parseInt_small newPages_def maxUpdated_def toString_7
      okRemote_sel exampleConfig_sel startWorld_def emit_def LAST_IMPORT_FILE_def
      updated_examples)

subsection \<open>Run after run\<close>

lemma checkpointStep_stored:
  assumes "checkpointStep w w'" and "file w = Some s" and "parseInt s = Num a"
  shows "\<exists>s' b. file w' = Some s' \<and> parseInt s' = Num b \<and> a \<le> b"
  using assms(1)
proof (cases rule: checkpointStep.cases)
  case untouched
  then show ?thesis using assms(2,3) by auto
next
  case seeded
  then show ?thesis using assms(2) by simp
next
  case (advanced s0 t v)
  then have "a < v" using assms(2,3) by simp
  then show ?thesis using advanced parseInt_toString [of v] by auto
next
  case (seeded_advanced v)
  then show ?thesis using assms(2) by simp
qed

lemma stored_over_runs:
  assumes step: "\<And>r w. checkpointStep w (snd (m r w))"
    and "file w = Some s" and "parseInt s = Num a"
  shows "\<exists>s' b. file (runs m rs w) = Some s' \<and> parseInt s' = Num b \<and> a \<le> b"
  using assms(2,3)
proof (induction rs arbitrary: w s a)
  case Nil
  then show ?case by auto
next
  case (Cons r rs)
  obtain s1 b1 where 1: "file (snd (m r w)) = Some s1" "parseInt s1 = Num b1" "a \<le> b1"
    using checkpointStep_stored [OF step Cons.prems] by blast
  obtain s' b where "file (runs m rs (snd (m r w))) = Some s'" "parseInt s' = Num b" "b1 \<le> b"
    using Cons.IH [OF 1(1,2)] by blast
  then show ?case using 1(3) by auto
qed

lemma checkpoint_monotone_over_runs:
  assumes "file w = Some s" and "parseInt s = Num a"
    and "m = main_index \<or> m = main_part000 \<or> m = mainEffect"
  shows "\<exists>s' b. file (runs m rs w) = Some s' \<and> parseInt s' = Num b \<and> a \<le> b"
proof -
  have "checkpointStep w (snd (m r w))" for r w
    using assms(3) main_index_checkpoint [of r w] main_part000_checkpoint [of r w]
      mainEffect_checkpoint [of r w]
    by (metis prod.collapse)
  then show ?thesis using assms(1,2) by (rule stored_over_runs)
qed

lemma rerun_selects_nothing:
  assumes "newPages P (Num t) = p # ps"
  shows "newPages P (Num (maxUpdated p ps)) = []"
proof -
  have "\<not> maxUpdated p ps < updated q" if "q \<in> set P" for q
  proof (cases "t < updated q")
    case True
    then have "q \<in> set (newPages P (Num t))" using that by (simp add: newPages_def)
    then have "updated q \<le> maxUpdated p ps" using assms maxUpdated_ge by simp
    then show ?thesis by simp
  next
    case False
    have "\<exists>c. Num t = Num c \<and> c < maxUpdated p ps" using assms by (rule newPages_Cons_gt)
    then show ?thesis using False by simp
  qed
  then show ?thesis by (simp add: newPages_def filter_empty_conv)
qed

text \<open>
  Claim C9. One run of any variant, from the world \<open>w\<close> to the world \<open>w'\<close>, does one
  of four things to the checkpoint: nothing; seed an absent file with the default (the
  value the read then yields); replace a stored text that reads as \<open>t\<close> by a strictly
  greater \<open>v\<close>; seed the absent file and then write a \<open>v\<close> strictly greater than the
  default. So every value written at the end of a run is strictly greater than the
  value read at its start, and a stored value that reads as a number \<open>a\<close> is followed
  by a stored value \<open>b\<close> with \<open>a \<le> b\<close>, after this run and after any number of
  further runs of a variant, whatever the remote answers in each.
\<close>

theorem checkpoint_never_decreases:
  assumes "main_index r w = (res, w') \<or> main_part000 r w = (res, w') \<or> mainEffect r w = (res, w')"
  shows "((file w' = file w \<and> writes (events w') = writes (events w))
        \<or> (file w = None \<and> file w' = Some (toString INITIAL_IMPORT_TIME)
            \<and> writes (events w') = writes (events w) @ [toString INITIAL_IMPORT_TIME])
        \<or> (\<exists>s t v. file w = Some s \<and> parseInt s = Num t \<and> t < v \<and> file w' = Some (toString v)
            \<and> writes (events w') = writes (events w) @ [toString v])
        \<or> (\<exists>v. file w = None \<and> INITIAL_IMPORT_TIME < v \<and> file w' = Some (toString v)
            \<and> writes (events w') = writes (events w) @ [toString INITIAL_IMPORT_TIME, toString v]))
       \<and> (\<forall>s a. file w = Some s \<and> parseInt s = Num a \<longrightarrow>
            (\<exists>s' b. file w' = Some s' \<and> parseInt s' = Num b \<and> a \<le> b))
       \<and> (\<forall>m rs s a. (m = main_index \<or> m = main_part000 \<or> m = mainEffect)
              \<and> file w = Some s \<and> parseInt s = Num a \<longrightarrow>
            (\<exists>s' b. file (runs m rs w) = Some s' \<and> parseInt s' = Num b \<and> a \<le> b))"
proof -
  have step: "checkpointStep w w'"
    using assms main_index_checkpoint main_part000_checkpoint mainEffect_checkpoint by blast
  then have cases: "(file w' = file w \<and> writes (events w') = writes (events w))
        \<or> (file w = None \<and> file w' = Some (toString INITIAL_IMPORT_TIME)
            \<and> writes (events w') = writes (events w) @ [toString INITIAL_IMPORT_TIME])
        \<or> (\<exists>s t v. file w = Some s \<and> parseInt s = Num t \<and> t < v \<and> file w' = Some (toString v)
            \<and> writes (events w') = writes (events w) @ [toString v])
        \<or> (\<exists>v. file w = None \<and> INITIAL_IMPORT_TIME < v \<and> file w' = Some (toString v)
            \<and> writes (events w') = writes (events w) @ [toString INITIAL_IMPORT_TIME, toString v])"
    by (cases rule: checkpointStep.cases) blast+
  have mono: "\<exists>s' b. file w' = Some s' \<and> parseInt s' = Num b \<and> a \<le> b"
    if "file w = Some s" and "parseInt s = Num a" for s a
    using step that by (rule checkpointStep_stored)
  have many: "\<exists>s' b. file (runs m rs w) = Some s' \<and> parseInt s' = Num b \<and> a \<le> b"
    if "(m = main_index \<or> m = main_part000 \<or> m = mainEffect)
          \<and> file w = Some s \<and> parseInt s = Num a" for m rs s a
    using that checkpoint_monotone_over_runs [of w s a m rs] by blast
  show ?thesis using cases mono many by blast
qed

theorem checkpoint_never_decreases_witness:
  "main_index (okRemote [pageA, pageB, pageC]) startWorld =
     (Inr (), \<lparr>file = Some ''7'',
               events = [ExportPages ''src'', ImportPages ''dst'' [pageA, pageB],
                         WriteTextFile ''last_import.txt'' ''7''],
               importCalls = 1\<rparr>)
   \<and> file startWorld = Some ''0'' \<and> parseInt ''0'' = Num 0
   \<and> (\<exists>b. parseInt ''7'' = Num b \<and> 0 \<le> b)"
proof -
  let ?w' = "\<lparr>file = Some ''7'',
               events = [ExportPages ''src'', ImportPages ''dst'' [pageA, pageB],
                         WriteTextFile ''last_import.txt'' ''7''],
               importCalls = 1\<rparr>"
  have run: "main_index (okRemote [pageA, pageB, pageC]) startWorld = (Inr (), ?w')"
    by (rule run_index_ok)
  have f: "file startWorld = Some ''0''" by (simp add: startWorld_def)
  have p: "parseInt ''0'' = Num 0" by (simp add: parseInt_small)
  from checkpoint_never_decreases [of "okRemote [pageA, pageB, pageC]" startWorld "Inr ()" ?w'] run
  have "\<forall>s a. file startWorld = Some s \<and> parseInt s = Num a \<longrightarrow>
            (\<exists>s' b. file ?w' = Some s' \<and> parseInt s' = Num b \<and> a \<le> b)"
    by blast
  then have "\<exists>s' b. file ?w' = Some s' \<and> parseInt s' = Num b \<and> 0 \<le> b"
    using f p by blast
  then have "\<exists>b. parseInt ''7'' = Num b \<and> 0 \<le> b" by simp
  then show ?thesis using run f p by blast
qed

subsection \<open>Reading the checkpoint\<close>

lemma toString_big: "toString 1745900000 = ''1745900000''" "toString 500 = ''500''"
  by (simp_all add: toString_def toString_nat_numeral toString_nat_small digitChar_def)

lemma pageD_facts:
  "updated pageD = 1745900000" "filterPrivateIconPages [pageD] = [pageD]"
  by (simp_all add: pageD_def filterPrivateIconPages_def isIncludedIcon_def)

lemma batches_single: "batches [p] BATCH_SIZE = [[p]]"
  by (simp add: batches_def slice_def ceilDiv_def BATCH_SIZE_def)

lemma written_INITIAL:
  "written INITIAL_IMPORT_TIME w =
     w\<lparr>file := Some ''1745842021'',
       events := events w @ [WriteTextFile ''last_import.txt'' ''1745842021'']\<rparr>"
  by (simp add: written_def emit_def toString_INITIAL LAST_IMPORT_FILE_def)

text \<open>
  A checkpoint file whose content is not a number is read without any error:
  \<^verbatim>\<open>parseInt\<close> gives \<^verbatim>\<open>NaN\<close>, the default is neither yielded nor persisted, and the
  run selects nothing, although the exported page is newer than the default.
\<close>

theorem unparsable_checkpoint_is_not_recovered:
  "file garbledWorld = Some ''abc''
   \<and> getLastImportTime (okRemote [pageD]) garbledWorld = (Inr NaN, garbledWorld)
   \<and> getLastImportTimeEffect (okRemote [pageD]) garbledWorld = (Inr NaN, garbledWorld)
   \<and> newPages (filterPrivateIconPages [pageD]) (Num INITIAL_IMPORT_TIME) = [pageD]
   \<and> main_index (okRemote [pageD]) garbledWorld =
       (Inr (), \<lparr>file = Some ''abc'', events = [ExportPages ''src''], importCalls = 0\<rparr>)
   \<and> main_part000 (okRemote [pageD]) garbledWorld =
       (Inr (), \<lparr>file = Some ''abc'', events = [ExportPages ''src''], importCalls = 0\<rparr>)
   \<and> mainEffect (okRemote [pageD]) garbledWorld =
       (Inr (), \<lparr>file = Some ''abc'', events = [ExportPages ''src''], importCalls = 0\<rparr>)"
proof -
  let ?r = "okRemote [pageD]"
  let ?w1 = "\<lparr>file = Some ''abc'', events = [ExportPages ''src''], importCalls = 0\<rparr>"
  have f: "file garbledWorld = Some ''abc''" by (simp add: garbledWorld_def)
  have rd: "getLastImportTime ?r garbledWorld = (Inr NaN, garbledWorld)"
    by (simp add: getLastImportTime_cases f parseInt_small)
  have rdE: "getLastImportTimeEffect ?r garbledWorld = (Inr NaN, garbledWorld)"
    by (simp add: getLastImportTimeEffect_cases f parseInt_small)
  have sel: "newPages (filterPrivateIconPages [pageD]) (Num INITIAL_IMPORT_TIME) = [pageD]"
    by (simp add: pageD_facts newPages_def INITIAL_IMPORT_TIME_def)
  have cfg: "getConfig ?r = Inr exampleConfig" by (rule getConfig_example)
  have exp: "exportPages_result ?r = Inr [pageD]" by (simp add: okRemote_sel)
  have w1: "emit (ExportPages (exportingProjectName exampleConfig)) garbledWorld = ?w1"
    by (simp add: emit_def garbledWorld_def exampleConfig_sel)
  have rd1: "getLastImportTime ?r (emit (ExportPages (exportingProjectName exampleConfig)) garbledWorld)
      = (Inr NaN, ?w1)"
    unfolding w1 by (simp add: getLastImportTime_cases parseInt_small)
  have 1: "main_index ?r garbledWorld = (Inr (), ?w1)"
    by (simp add: main_index_after_read [OF cfg exp rd1] newPages_NaN)
  have 2: "main_part000 ?r garbledWorld = (Inr (), ?w1)"
    by (simp add: main_part000_after_read [OF cfg exp rd1] newPages_NaN)
  have 3: "mainEffect ?r garbledWorld = (Inr (), ?w1)"
    by (simp add: mainEffect_after_read [OF cfg exp getLastImportTimeEffect_agrees [OF rd1]]
        newPages_NaN)
  show ?thesis using f rd rdE sel 1 2 3 by blast
qed

text \<open>
  Claim C6, as amended. When the checkpoint file is absent and the default can be
  written, the read is not fatal: it yields 1745842021, persists it at once (the file
  then holds the text \<^verbatim>\<open>1745842021\<close>), and the run goes on with the delta selected
  against 1745842021. When the file exists, nothing is written and the read yields
  \<^verbatim>\<open>parseInt\<close> of its content; on unparsable content that is \<^verbatim>\<open>NaN\<close>, and the run
  ends successfully after the export with nothing selected.
\<close>

theorem checkpoint_read_recovers_absent_file:
  "(file w = None \<and> write_error r = None \<longrightarrow>
      getLastImportTime r w = (Inr (Num 1745842021), written 1745842021 w)
      \<and> getLastImportTimeEffect r w = (Inr (Num 1745842021), written 1745842021 w)
      \<and> file (written 1745842021 w) = Some ''1745842021''
      \<and> events (written 1745842021 w) =
          events w @ [WriteTextFile ''last_import.txt'' ''1745842021''])
   \<and> (file w = None \<and> write_error r = None \<and> getConfig r = Inr c
       \<and> exportPages_result r = Inr pages
       \<and> w2 = written 1745842021 (emit (ExportPages (exportingProjectName c)) w)
       \<and> delta = newPages (filterPrivateIconPages pages) (Num 1745842021) \<longrightarrow>
      main_index r w =
        (case delta of
           [] \<Rightarrow> (Inr (), w2)
         | p # ps \<Rightarrow> andThen (importPagesToProject_index r c (p # ps))
                      (\<lambda>_. saveLastImportTime r (maxUpdated p ps)) w2)
      \<and> main_part000 r w =
        (case delta of
           [] \<Rightarrow> (Inr (), w2)
         | p # ps \<Rightarrow> andThen (importPagesToProject_part000 r c (p # ps))
                      (\<lambda>_. saveLastImportTime r (maxUpdated p ps)) w2)
      \<and> mainEffect r w =
        (case delta of
           [] \<Rightarrow> (Inr (), w2)
         | p # ps \<Rightarrow> andThen (importPagesToProject r (importingProjectName c) (p # ps) (sid c))
                      (\<lambda>_. saveLastImportTimeEffect r (maxUpdated p ps)) w2))
   \<and> (file w = Some s \<longrightarrow>
      getLastImportTime r w = (Inr (parseInt s), w)
      \<and> getLastImportTimeEffect r w = (Inr (parseInt s), w))
   \<and> (file w = Some s \<and> parseInt s = NaN \<and> getConfig r = Inr c
       \<and> exportPages_result r = Inr pages \<longrightarrow>
      main_index r w = (Inr (), emit (ExportPages (exportingProjectName c)) w)
      \<and> main_part000 r w = (Inr (), emit (ExportPages (exportingProjectName c)) w)
      \<and> mainEffect r w = (Inr (), emit (ExportPages (exportingProjectName c)) w))"
proof (intro conjI impI)
  assume a: "file w = None \<and> write_error r = None"
  show "getLastImportTime r w = (Inr (Num 1745842021), written 1745842021 w)"
    using a by (simp add: getLastImportTime_cases INITIAL_IMPORT_TIME_def)
  show "getLastImportTimeEffect r w = (Inr (Num 1745842021), written 1745842021 w)"
    using a by (simp add: getLastImportTimeEffect_cases INITIAL_IMPORT_TIME_def)
  show "file (written 1745842021 w) = Some ''1745842021''"
    using written_INITIAL [of w] by (simp add: INITIAL_IMPORT_TIME_def)
  show "events (written 1745842021 w) =
      events w @ [WriteTextFile ''last_import.txt'' ''1745842021'']"
    using written_INITIAL [of w] by (simp add: INITIAL_IMPORT_TIME_def)
next
  assume a: "file w = None \<and> write_error r = None \<and> getConfig r = Inr c
       \<and> exportPages_result r = Inr pages
       \<and> w2 = written 1745842021 (emit (ExportPages (exportingProjectName c)) w)
       \<and> delta = newPages (filterPrivateIconPages pages) (Num 1745842021)"
  let ?w1 = "emit (ExportPages (exportingProjectName c)) w"
  have rd: "getLastImportTime r ?w1 = (Inr (Num 1745842021), w2)"
    using a by (simp add: getLastImportTime_cases INITIAL_IMPORT_TIME_def emit_def)
  show "main_index r w =
        (case delta of
           [] \<Rightarrow> (Inr (), w2)
         | p # ps \<Rightarrow> andThen (importPagesToProject_index r c (p # ps))
                      (\<lambda>_. saveLastImportTime r (maxUpdated p ps)) w2)"
    using a main_index_after_read [OF _ _ rd, of pages] by simp
  show "main_part000 r w =
        (case delta of
           [] \<Rightarrow> (Inr (), w2)
         | p # ps \<Rightarrow> andThen (importPagesToProject_part000 r c (p # ps))
                      (\<lambda>_. saveLastImportTime r (maxUpdated p ps)) w2)"
    using a main_part000_after_read [OF _ _ rd, of pages] by simp
  show "mainEffect r w =
        (case delta of
           [] \<Rightarrow> (Inr (), w2)
         | p # ps \<Rightarrow> andThen (importPagesToProject r (importingProjectName c) (p # ps) (sid c))
                      (\<lambda>_. saveLastImportTimeEffect r (maxUpdated p ps)) w2)"
    using a mainEffect_after_read [OF _ _ getLastImportTimeEffect_agrees [OF rd], of pages] by simp
next
  assume a: "file w = Some s"
  show "getLastImportTime r w = (Inr (parseInt s), w)"
    using a by (simp add: getLastImportTime_cases)
  show "getLastImportTimeEffect r w = (Inr (parseInt s), w)"
    using a by (simp add: getLastImportTimeEffect_cases)
next
  assume a: "file w = Some s \<and> parseInt s = NaN \<and> getConfig r = Inr c
       \<and> exportPages_result r = Inr pages"
  let ?w1 = "emit (ExportPages (exportingProjectName c)) w"
  have rd: "getLastImportTime r ?w1 = (Inr NaN, ?w1)"
    using a by (simp add: getLastImportTime_cases emit_def)
  show "main_index r w = (Inr (), ?w1)"
    using a main_index_after_read [OF _ _ rd, of pages] by (simp add: newPages_NaN)
  show "main_part000 r w = (Inr (), ?w1)"
    using a main_part000_after_read [OF _ _ rd, of pages] by (simp add: newPages_NaN)
  show "mainEffect r w = (Inr (), ?w1)"
    using a mainEffect_after_read [OF _ _ getLastImportTimeEffect_agrees [OF rd], of pages]
    by (simp add: newPages_NaN)
qed

theorem checkpoint_read_recovers_absent_file_witness:
  "getLastImportTime (okRemote [pageD]) freshWorld =
     (Inr (Num 1745842021),
      \<lparr>file = Some ''1745842021'',
        events = [WriteTextFile ''last_import.txt'' ''1745842021''], importCalls = 0\<rparr>)
   \<and> mainEffect (okRemote [pageD]) freshWorld =
     (Inr (),
      \<lparr>file = Some ''1745900000'',
        events = [ExportPages ''src'', WriteTextFile ''last_import.txt'' ''1745842021'',
                  GetProfile, Fetch ''dst'' [pageD],
                  WriteTextFile ''last_import.txt'' ''1745900000''],
        importCalls = 1\<rparr>)
   \<and> getLastImportTime (okRemote [pageD]) garbledWorld = (Inr NaN, garbledWorld)
   \<and> mainEffect (okRemote [pageD]) garbledWorld =
     (Inr (), \<lparr>file = Some ''abc'', events = [ExportPages ''src''], importCalls = 0\<rparr>)"
proof -
  let ?r = "okRemote [pageD]"
  let ?w1 = "emit (ExportPages (exportingProjectName exampleConfig)) freshWorld"
  let ?w2 = "written 1745842021 ?w1"
  have fresh: "file freshWorld = None \<and> write_error ?r = None"
    by (simp add: freshWorld_def okRemote_sel)
  have garbled: "file garbledWorld = Some ''abc''" by (simp add: garbledWorld_def)
  have nan: "parseInt ''abc'' = NaN" by (simp add: parseInt_small)
  have cfg: "getConfig ?r = Inr exampleConfig" by (rule getConfig_example)
  have exp: "exportPages_result ?r = Inr [pageD]" by (simp add: okRemote_sel)
  have delta: "newPages (filterPrivateIconPages [pageD]) (Num 1745842021) = [pageD]"
    by (simp add: pageD_facts newPages_def)
  note T = checkpoint_read_recovers_absent_file
  have 1: "getLastImportTime ?r freshWorld = (Inr (Num 1745842021), written 1745842021 freshWorld)"
    using T [where w = freshWorld and r = ?r] fresh by blast
  have w: "written 1745842021 freshWorld =
      \<lparr>file = Some ''1745842021'',
        events = [WriteTextFile ''last_import.txt'' ''1745842021''], importCalls = 0\<rparr>"
    using written_INITIAL [of freshWorld] by (simp add: INITIAL_IMPORT_TIME_def freshWorld_def)
  have "mainEffect ?r freshWorld =
        (case newPages (filterPrivateIconPages [pageD]) (Num 1745842021) of
           [] \<Rightarrow> (Inr (), ?w2)
         | p # ps \<Rightarrow> andThen (importPagesToProject ?r (importingProjectName exampleConfig)
                                (p # ps) (sid exampleConfig))
                      (\<lambda>_. saveLastImportTimeEffect ?r (maxUpdated p ps)) ?w2)"
    using T [where w = freshWorld and r = ?r and c = exampleConfig and pages = "[pageD]"
        and ?w2.0 = ?w2 and delta = "newPages (filterPrivateIconPages [pageD]) (Num 1745842021)"]
      fresh cfg exp by blast
  then have "mainEffect ?r freshWorld =
      andThen (importPagesToProject ?r ''dst'' [pageD] ''secret'')
        (\<lambda>_. saveLastImportTimeEffect ?r (maxUpdated pageD [])) ?w2"
    by (simp add: delta exampleConfig_sel)
  moreover have "?w2 = \<lparr>file = Some ''1745842021'',
      events = [ExportPages ''src'', WriteTextFile ''last_import.txt'' ''1745842021''],
      importCalls = 0\<rparr>"
    using written_INITIAL [of ?w1]
    by (simp add: INITIAL_IMPORT_TIME_def freshWorld_def emit_def exampleConfig_sel)
  moreover have "importPagesToProject ?r ''dst'' [pageD] ''secret''
      \<lparr>file = Some ''1745842021'',
        events = [ExportPages ''src'', WriteTextFile ''last_import.txt'' ''1745842021''],
        importCalls = 0\<rparr> =
      (Inr (), \<lparr>file = Some ''1745842021'',
        events = [ExportPages ''src'', WriteTextFile ''last_import.txt'' ''1745842021'',
                  GetProfile, Fetch ''dst'' [pageD]],
        importCalls = 1\<rparr>)"
    by (simp add: importPagesToProject_ok importOk_okRemote batches_single trace_def
        batchEvents_def pause_def advance_def)
  ultimately have 2: "mainEffect ?r freshWorld =
     (Inr (),
      \<lparr>file = Some ''1745900000'',
        events = [ExportPages ''src'', WriteTextFile ''last_import.txt'' ''1745842021'',
                  GetProfile, Fetch ''dst'' [pageD],
                  WriteTextFile ''last_import.txt'' ''1745900000''],
        importCalls = 1\<rparr>)"
    by (simp add: andThen_def saveLastImportTimeEffect_cases okRemote_sel written_def emit_def
        maxUpdated_def pageD_facts toString_big LAST_IMPORT_FILE_def)
  have 3: "getLastImportTime ?r garbledWorld = (Inr NaN, garbledWorld)"
    using T [where w = garbledWorld and r = ?r and s = "''abc''"] garbled nan by simp
  have "mainEffect ?r garbledWorld =
      (Inr (), emit (ExportPages (exportingProjectName exampleConfig)) garbledWorld)"
    using T [where w = garbledWorld and r = ?r and s = "''abc''" and c = exampleConfig
        and pages = "[pageD]"] garbled nan cfg exp by blast
  then have 4: "mainEffect ?r garbledWorld =
     (Inr (), \<lparr>file = Some ''abc'', events = [ExportPages ''src''], importCalls = 0\<rparr>)"
    by (simp add: emit_def garbledWorld_def exampleConfig_sel)
  show ?thesis using 1 w 2 3 4 by simp
qed

subsection \<open>The end-of-run write, variant by variant\<close>

lemma main_index_import_ok:
  assumes "getConfig r = Inr c" and "exportPages_result r = Inr pages"
    and "getLastImportTime r (emit (ExportPages (exportingProjectName c)) w) = (Inr t, w2)"
    and "newPages (filterPrivateIconPages pages) t = p # ps"
    and "depsOk r (importCalls w2)" and "write_error r = None"
  shows "main_index r w =
     (Inr (), written (maxUpdated p ps)
                (advance 1 [ImportPages (importingProjectName c) (p # ps)] w2))"
  using assms(4,5,6)
  by (auto simp: main_index_after_read [OF assms(1,2,3)] andThen_def
      importPagesToProject_index_def deps_importPages_def depsOk_def emit_count
      saveLastImportTime_cases split: sum.splits)

lemma main_index_import_fails:
  assumes "getConfig r = Inr c" and "exportPages_result r = Inr pages"
    and "getLastImportTime r (emit (ExportPages (exportingProjectName c)) w) = (Inr t, w2)"
    and "newPages (filterPrivateIconPages pages) t = p # ps"
    and "\<not> depsOk r (importCalls w2)"
  shows "\<exists>name message. main_index r w =
     (Inl (JsError (name @ '' when importing pages'') message),
      advance 1 [ImportPages (importingProjectName c) (p # ps)] w2)"
  using assms(4,5)
  by (auto simp: main_index_after_read [OF assms(1,2,3)] andThen_def
      importPagesToProject_index_def deps_importPages_def depsOk_def emit_count
      split: sum.splits)

lemma first_failure:
  fixes k :: nat
  assumes "\<not> (\<forall>i < k. P i)"
  shows "\<exists>m < k. \<not> P m \<and> (\<forall>i < m. P i)"
proof -
  from assms obtain i where i: "i < k" "\<not> P i" by auto
  define m where "m = (LEAST i. \<not> P i)"
  have 1: "\<not> P m"
    unfolding m_def using i(2) by (rule LeastI [where P = "\<lambda>i. \<not> P i"])
  have 2: "m \<le> i"
    unfolding m_def using i(2) by (rule Least_le [where P = "\<lambda>i. \<not> P i"])
  have 3: "P j" if "j < m" for j
    using that not_less_Least [of j "\<lambda>i. \<not> P i"] unfolding m_def by simp
  have "m < k" using 2 i(1) by simp
  then show ?thesis using 1 3 by blast
qed

lemma mainEffect_import_ok:
  assumes "getConfig r = Inr c" and "exportPages_result r = Inr pages"
    and "getLastImportTime r (emit (ExportPages (exportingProjectName c)) w) = (Inr t, w2)"
    and "newPages (filterPrivateIconPages pages) t = p # ps"
    and "\<forall>i < length (batches (p # ps) BATCH_SIZE). importOk r (importCalls w2 + i)"
    and "write_error r = None"
  shows "mainEffect r w =
     (Inr (), written (maxUpdated p ps)
                (advance (length (batches (p # ps) BATCH_SIZE))
                   (trace (importingProjectName c) (batches (p # ps) BATCH_SIZE)
                      (length (batches (p # ps) BATCH_SIZE))) w2))"
  using assms(4,6)
  by (simp add: mainEffect_after_read [OF assms(1,2) getLastImportTimeEffect_agrees [OF assms(3)]]
      andThen_def importPagesToProject_ok [OF assms(5)] saveLastImportTimeEffect_cases)

lemma mainEffect_import_fails:
  assumes "getConfig r = Inr c" and "exportPages_result r = Inr pages"
    and "getLastImportTime r (emit (ExportPages (exportingProjectName c)) w) = (Inr t, w2)"
    and "newPages (filterPrivateIconPages pages) t = p # ps"
    and "\<not> (\<forall>i < length (batches (p # ps) BATCH_SIZE). importOk r (importCalls w2 + i))"
  shows "\<exists>m msg. m < length (batches (p # ps) BATCH_SIZE)
     \<and> \<not> importOk r (importCalls w2 + m) \<and> (\<forall>i < m. importOk r (importCalls w2 + i))
     \<and> mainEffect r w =
         (Inl (ImportError msg (importingProjectName c)),
          advance (m + 1)
            (trace (importingProjectName c) (batches (p # ps) BATCH_SIZE) m @
             failedRequest r (importingProjectName c) (batches (p # ps) BATCH_SIZE ! m)
               (importCalls w2 + m)) w2)"
proof -
  obtain m where m: "m < length (batches (p # ps) BATCH_SIZE)"
      "\<not> importOk r (importCalls w2 + m)" "\<forall>i < m. importOk r (importCalls w2 + i)"
    using first_failure [OF assms(5)] by blast
  obtain msg where "importPagesToProject r (importingProjectName c) (p # ps) (sid c) w2 =
     (Inl (ImportError msg (importingProjectName c)),
      advance (m + 1)
        (trace (importingProjectName c) (batches (p # ps) BATCH_SIZE) m @
         failedRequest r (importingProjectName c) (batches (p # ps) BATCH_SIZE ! m)
           (importCalls w2 + m)) w2)"
    using importPagesToProject_fail [OF m(1) m(3) m(2)] by blast
  then have "mainEffect r w =
         (Inl (ImportError msg (importingProjectName c)),
          advance (m + 1)
            (trace (importingProjectName c) (batches (p # ps) BATCH_SIZE) m @
             failedRequest r (importingProjectName c) (batches (p # ps) BATCH_SIZE ! m)
               (importCalls w2 + m)) w2)"
    using assms(4)
    by (simp add: mainEffect_after_read [OF assms(1,2) getLastImportTimeEffect_agrees [OF assms(3)]]
        andThen_def)
  then show ?thesis using m by blast
qed

lemma main_part000_always_writes:
  assumes "getConfig r = Inr c" and "exportPages_result r = Inr pages"
    and "getLastImportTime r (emit (ExportPages (exportingProjectName c)) w) = (Inr t, w2)"
    and "newPages (filterPrivateIconPages pages) t = p # ps"
    and "write_error r = None"
  shows "main_part000 r w =
     (Inr (), written (maxUpdated p ps)
                (advance (length (batches (p # ps) BATCH_SIZE))
                   (trace_part000 r (importingProjectName c) (batches (p # ps) BATCH_SIZE)
                      (importCalls w2) (length (batches (p # ps) BATCH_SIZE))) w2))"
  using assms(4,5)
  by (simp add: main_part000_after_read [OF assms(1,2,3)] andThen_def
      importPagesToProject_part000_trace saveLastImportTime_cases)

subsection \<open>A failed import\<close>

lemma start_read:
  "getLastImportTime r (emit (ExportPages (exportingProjectName exampleConfig)) startWorld) =
     (Inr (Num 0), \<lparr>file = Some ''0'', events = [ExportPages ''src''], importCalls = 0\<rparr>)"
  by (simp add: getLastImportTime_cases emit_def startWorld_def parseInt_small exampleConfig_sel)

lemma delta_pageB: "newPages (filterPrivateIconPages [pageB]) (Num 0) = [pageB]"
  by (simp add: filter_examples newPages_def updated_examples)

lemma maxUpdated_const:
  assumes "\<And>q. q \<in> set (p # ps) \<Longrightarrow> updated q = c"
  shows "maxUpdated p ps = c"
proof -
  have "maxUpdated p ps \<in> updated ` set (p # ps)" by (rule maxUpdated_mem)
  then show ?thesis using assms by auto
qed

text \<open>
  Claim C4, at the input where the code departs from it: the delta is one page and
  its import fails. The promise-chain variant ends successfully and has written the
  checkpoint 7, the maximum \<open>updated\<close> of the delta; the unbatched variant and the
  Effect variant end with the import error and leave the checkpoint at 0.
\<close>

theorem main_part000_writes_checkpoint_after_failed_import:
  "main_part000 (firstFailsRemote [pageB]) startWorld =
     (Inr (), \<lparr>file = Some ''7'',
               events = [ExportPages ''src'', ImportPages ''dst'' [pageB],
                         WriteTextFile ''last_import.txt'' ''7''],
               importCalls = 1\<rparr>)
   \<and> main_index (firstFailsRemote [pageB]) startWorld =
     (Inl (JsError ''ImportError when importing pages'' ''rejected''),
      \<lparr>file = Some ''0'', events = [ExportPages ''src'', ImportPages ''dst'' [pageB]],
        importCalls = 1\<rparr>)
   \<and> mainEffect (firstFailsRemote [pageB]) startWorld =
     (Inl (ImportError ''Import failed: 500 - rejected'' ''dst''),
      \<lparr>file = Some ''0'', events = [ExportPages ''src'', GetProfile, Fetch ''dst'' [pageB]],
        importCalls = 1\<rparr>)"
proof -
  let ?r = "firstFailsRemote [pageB]"
  have cfg: "getConfig ?r = Inr exampleConfig" by (rule getConfig_example)
  have exp: "exportPages_result ?r = Inr [pageB]" by (simp add: firstFailsRemote_sel)
  have 1: "main_part000 ?r startWorld =
     (Inr (), \<lparr>file = Some ''7'',
               events = [ExportPages ''src'', ImportPages ''dst'' [pageB],
                         WriteTextFile ''last_import.txt'' ''7''],
               importCalls = 1\<rparr>)"
    by (simp add: main_part000_after_read [OF cfg exp start_read] delta_pageB andThen_def
        importPagesToProject_part000_trace batches_single trace_part000_def depsOk_def
        firstFailsRemote_sel exampleConfig_sel pause_def advance_def
        saveLastImportTime_cases written_def emit_def maxUpdated_def updated_examples
        toString_7 LAST_IMPORT_FILE_def)
  have 2: "main_index ?r startWorld =
     (Inl (JsError ''ImportError when importing pages'' ''rejected''),
      \<lparr>file = Some ''0'', events = [ExportPages ''src'', ImportPages ''dst'' [pageB]],
        importCalls = 1\<rparr>)"
    by (simp add: main_index_after_read [OF cfg exp start_read] delta_pageB andThen_def
        importPagesToProject_index_def deps_importPages_def firstFailsRemote_sel
        exampleConfig_sel emit_def)
  have 3: "mainEffect ?r startWorld =
     (Inl (ImportError ''Import failed: 500 - rejected'' ''dst''),
      \<lparr>file = Some ''0'', events = [ExportPages ''src'', GetProfile, Fetch ''dst'' [pageB]],
        importCalls = 1\<rparr>)"
    by (simp add: mainEffect_after_read [OF cfg exp getLastImportTimeEffect_agrees [OF start_read]]
        delta_pageB andThen_def importPagesToProject_def processBatchesEffect_def
        BATCH_SIZE_pos batches_single importBatch_def importPages_def Let_def
        firstFailsRemote_sel exampleConfig_sel emit_def toString_big)
  show ?thesis using 1 2 3 by blast
qed

text \<open>
  Claim C1, at the input where the code departs from it: 101 pages in the delta
  (two batches, of 100 pages and of one), the import of the first batch fails. In the promise-chain variant the second batch is
  requested all the same, the importer returns successfully, and the run writes the
  checkpoint 7; the Effect variant stops at the failed first batch with the import
  error.
\<close>

theorem part000_failed_batch_is_not_raised:
  "importPagesToProject_part000 (firstFailsRemote []) exampleConfig (numberedPages 101) startWorld =
     (Inr (), \<lparr>file = Some ''0'',
               events = [ImportPages ''dst'' (take 100 (numberedPages 101)),
                         ImportPages ''dst'' (drop 100 (numberedPages 101))],
               importCalls = 2\<rparr>)
   \<and> main_part000 (firstFailsRemote (numberedPages 101)) startWorld =
     (Inr (), \<lparr>file = Some ''7'',
               events = [ExportPages ''src'',
                         ImportPages ''dst'' (take 100 (numberedPages 101)),
                         ImportPages ''dst'' (drop 100 (numberedPages 101)),
                         WriteTextFile ''last_import.txt'' ''7''],
               importCalls = 2\<rparr>)
   \<and> importPagesToProject (firstFailsRemote []) ''dst'' (numberedPages 101) ''secret'' startWorld =
     (Inl (ImportError ''Import failed: 500 - rejected'' ''dst''),
      \<lparr>file = Some ''0'', events = [GetProfile, Fetch ''dst'' (take 100 (numberedPages 101))],
        importCalls = 1\<rparr>)"
proof -
  let ?ps = "numberedPages 101"
  let ?r = "firstFailsRemote ?ps"
  let ?w1 = "\<lparr>file = Some ''0'', events = [ExportPages ''src''], importCalls = 0\<rparr>"
  have cfg: "getConfig ?r = Inr exampleConfig" by (rule getConfig_example)
  have exp: "exportPages_result ?r = Inr ?ps" by (simp add: firstFailsRemote_sel)
  have wr: "write_error ?r = None" by (simp add: firstFailsRemote_sel)
  have ne: "?ps \<noteq> []"
    using length_numberedPages [of 101] by auto
  then obtain p ps where pps: "?ps = p # ps" by (cases ?ps) auto
  have "newPages (filterPrivateIconPages ?ps) (Num 0) = ?ps"
    by (simp add: numberedPages_kept numberedPages_new)
  then have delta: "newPages (filterPrivateIconPages ?ps) (Num 0) = p # ps"
    using pps by (rule trans)
  have mx: "maxUpdated p ps = 7"
    using numberedPages_updated [of _ 101] by (intro maxUpdated_const) (simp add: pps)
  have 1: "importPagesToProject_part000 (firstFailsRemote []) exampleConfig ?ps startWorld =
     (Inr (), \<lparr>file = Some ''0'',
               events = [ImportPages ''dst'' (take 100 ?ps), ImportPages ''dst'' (drop 100 ?ps)],
               importCalls = 2\<rparr>)"
    by (simp add: importPagesToProject_part000_trace batches_numbered trace_part000_def
        upt_rec
        depsOk_def firstFailsRemote_sel startWorld_def exampleConfig_sel pause_def advance_def)
  have "main_part000 ?r startWorld =
     (Inr (), written (maxUpdated p ps)
                (advance (length (batches (p # ps) BATCH_SIZE))
                   (trace_part000 ?r (importingProjectName exampleConfig)
                      (batches (p # ps) BATCH_SIZE) (importCalls ?w1)
                      (length (batches (p # ps) BATCH_SIZE))) ?w1))"
    using cfg exp start_read delta wr by (rule main_part000_always_writes)
  then have 2: "main_part000 ?r startWorld =
     (Inr (), \<lparr>file = Some ''7'',
               events = [ExportPages ''src'', ImportPages ''dst'' (take 100 ?ps),
                         ImportPages ''dst'' (drop 100 ?ps),
                         WriteTextFile ''last_import.txt'' ''7''],
               importCalls = 2\<rparr>)"
    unfolding mx pps [symmetric]
    by (simp add: batches_numbered trace_part000_def
        upt_rec
        depsOk_def firstFailsRemote_sel exampleConfig_sel pause_def advance_def
        written_def emit_def toString_7 LAST_IMPORT_FILE_def)
  have 3: "importPagesToProject (firstFailsRemote []) ''dst'' ?ps ''secret'' startWorld =
     (Inl (ImportError ''Import failed: 500 - rejected'' ''dst''),
      \<lparr>file = Some ''0'', events = [GetProfile, Fetch ''dst'' (take 100 ?ps)],
        importCalls = 1\<rparr>)"
    using ne
    by (simp add: importPagesToProject_def processBatchesEffect_def BATCH_SIZE_pos
        batches_numbered andThen_def importBatch_def importPages_def Let_def
        firstFailsRemote_sel emit_def startWorld_def toString_big)
  show ?thesis using 1 2 3 by blast
qed

subsection \<open>The scenario of the specification\<close>

lemma scenario_delta:
  "newPages (filterPrivateIconPages [scenarioA, scenarioB, scenarioC]) (Num 1745842021) = [scenarioB]"
  by (simp add: filterPrivateIconPages_def isIncludedIcon_def newPages_def
      scenarioA_def scenarioB_def scenarioC_def)

lemma scenario_run:
  "mainEffect (okRemote [scenarioA, scenarioB, scenarioC]) scenarioWorld =
     (Inr (),
      \<lparr>file = Some ''1745842022'',
        events = [ExportPages ''src'', GetProfile, Fetch ''dst'' [scenarioB],
                  WriteTextFile ''last_import.txt'' ''1745842022''],
        importCalls = 1\<rparr>)"
proof -
  let ?r = "okRemote [scenarioA, scenarioB, scenarioC]"
  let ?w1 = "\<lparr>file = Some ''1745842021'', events = [ExportPages ''src''], importCalls = 0\<rparr>"
  have cfg: "getConfig ?r = Inr exampleConfig" by (rule getConfig_example)
  have exp: "exportPages_result ?r = Inr [scenarioA, scenarioB, scenarioC]"
    by (simp add: okRemote_sel)
  have rd: "getLastImportTimeEffect ?r
      (emit (ExportPages (exportingProjectName exampleConfig)) scenarioWorld) =
      (Inr (Num 1745842021), ?w1)"
    by (simp add: getLastImportTimeEffect_cases emit_def scenarioWorld_def parseInt_examples
        exampleConfig_sel)
  have ts: "toString 1745842022 = ''1745842022''"
    by (simp add: toString_def toString_nat_numeral toString_nat_small digitChar_def)
  have ub: "updated scenarioB = 1745842022" by (simp add: scenarioB_def)
  show ?thesis
    by (simp add: mainEffect_after_read [OF cfg exp rd] scenario_delta andThen_def
        importPagesToProject_ok importOk_okRemote batches_single trace_def batchEvents_def
        pause_def advance_def saveLastImportTimeEffect_cases okRemote_sel written_def emit_def
        maxUpdated_def ub ts LAST_IMPORT_FILE_def exampleConfig_sel)
qed

end
